theory Spec2Isabelle
  imports Complex_Main "HOL-Library.Product_Lexorder"
begin

section \<open>Python and numpy/pandas values used by \<open>openhdemg.library.muap\<close>\<close>

text \<open>
  A float cell is a rational number or NaN (\<open>None\<close>).  Floats are idealised as exact
  rationals: the properties below concern shapes, index arithmetic and comparisons, not
  rounding error.
\<close>

type_synonym val = "rat option"

datatype py_error =
    ValueError string
  | IndexError
  | TypeError
  | KeyError
  | ZeroDivisionError
  | UnboundLocalError

definition ebind :: "py_error + 'a \<Rightarrow> ('a \<Rightarrow> py_error + 'b) \<Rightarrow> py_error + 'b" where
  "ebind m f = (case m of Inl e \<Rightarrow> Inl e | Inr x \<Rightarrow> f x)"

fun emap :: "('a \<Rightarrow> py_error + 'b) \<Rightarrow> 'a list \<Rightarrow> py_error + 'b list" where
  "emap f [] = Inr []"
| "emap f (x # xs) = ebind (f x) (\<lambda>y. ebind (emap f xs) (\<lambda>ys. Inr (y # ys)))"

text \<open>Python 3 \<open>round(x)\<close> on a float: nearest integer, ties to the even one.\<close>

definition py_round :: "rat \<Rightarrow> int" where
  "py_round x =
     (let f = \<lfloor>x\<rfloor>; d = x - of_int f
      in if d < 1 / 2 then f
         else if 1 / 2 < d then f + 1
         else if even f then f else f + 1)"

text \<open>Python slicing \<open>xs[a:b]\<close>: negative bounds count from the end, all bounds are clipped.\<close>

definition py_bound :: "nat \<Rightarrow> int \<Rightarrow> nat" where
  "py_bound n i = (if i < 0 then nat (max 0 (int n + i)) else min n (nat i))"

definition py_slice :: "'a list \<Rightarrow> int \<Rightarrow> int \<Rightarrow> 'a list" where
  "py_slice xs a b =
     (let s = py_bound (length xs) a; e = py_bound (length xs) b
      in take (e - s) (drop s xs))"

text \<open>Python list indexing \<open>xs[i]\<close> with a non-negative index.\<close>

definition py_get :: "'a list \<Rightarrow> nat \<Rightarrow> py_error + 'a" where
  "py_get xs i = (if i < length xs then Inr (xs ! i) else Inl IndexError)"

text \<open>A dict is an association list in insertion order; \<open>d[k] = v\<close> is \<open>dict_set\<close>.\<close>

fun dict_set :: "'k \<Rightarrow> 'v \<Rightarrow> ('k \<times> 'v) list \<Rightarrow> ('k \<times> 'v) list" where
  "dict_set k v [] = [(k, v)]"
| "dict_set k v ((k', v') # d) = (if k = k' then (k, v) # d else (k', v') # dict_set k v d)"

text \<open>
  Column labels of a DataFrame.  Channel labels are integers; \<open>pd.merge\<close> renames a label
  that occurs on both sides by appending \<open>_x\<close> (left) or \<open>_y\<close> (right).
\<close>

datatype label = Chan int | Suffix_x label | Suffix_y label

text \<open>A \<open>pd.DataFrame\<close>: the row index and the columns in order, each with its cells.\<close>

record dataframe =
  index :: "int list"
  cols :: "(label \<times> val list) list"

definition columns :: "dataframe \<Rightarrow> label list" where
  "columns df = map fst (cols df)"

definition wf_df :: "dataframe \<Rightarrow> bool" where
  "wf_df df = list_all (\<lambda>c. length (snd c) = length (index df)) (cols df)"

text \<open>The result of \<open>np.mean(..., axis=0)\<close>: an array, or the scalar NaN for an empty list.\<close>

datatype ndvalue = Scalar val | Arr "val list"

definition fmean :: "val list \<Rightarrow> val" where
  "fmean vs =
     (if vs = [] \<or> None \<in> set vs then None
      else Some (sum_list (map the vs) / of_nat (length vs)))"

definition np_mean_axis0 :: "val list list \<Rightarrow> ndvalue" where
  "np_mean_axis0 xss =
     (case xss of
        [] \<Rightarrow> Scalar None
      | xs # _ \<Rightarrow> Arr (map (\<lambda>j. fmean (map (\<lambda>ys. ys ! j) xss)) [0..<length xs]))"

text \<open>\<open>np.full((n,), v)\<close>: a negative dimension is refused.\<close>

definition np_full :: "int \<Rightarrow> val \<Rightarrow> py_error + val list" where
  "np_full n v =
     (if n < 0 then Inl (ValueError ''negative dimensions are not allowed'')
      else Inr (replicate (nat n) v))"

definition is_arr :: "ndvalue \<Rightarrow> bool" where
  "is_arr v = (case v of Scalar _ \<Rightarrow> False | Arr _ \<Rightarrow> True)"

definition nd_len :: "ndvalue \<Rightarrow> nat" where
  "nd_len v = (case v of Scalar _ \<Rightarrow> 0 | Arr xs \<Rightarrow> length xs)"

definition nd_cells :: "nat \<Rightarrow> ndvalue \<Rightarrow> val list" where
  "nd_cells n v = (case v of Scalar x \<Rightarrow> replicate n x | Arr xs \<Rightarrow> xs)"

text \<open>
  \<open>pd.DataFrame(d)\<close> for a dict of columns: the empty dict gives the empty frame, a dict
  of scalars only is refused, arrays must agree in length and scalars are broadcast.
\<close>

definition pd_DataFrame :: "(label \<times> ndvalue) list \<Rightarrow> py_error + dataframe" where
  "pd_DataFrame d =
     (if d = [] then Inr \<lparr>index = [], cols = []\<rparr>
      else case filter is_arr (map snd d) of
        [] \<Rightarrow> Inl (ValueError ''If using all scalar values, you must pass an index'')
      | a # as \<Rightarrow>
          (if list_all (\<lambda>b. nd_len b = nd_len a) as
           then Inr \<lparr>index = map int [0..<nd_len a],
                     cols = map (\<lambda>(k, v). (k, nd_cells (nd_len a) v)) d\<rparr>
           else Inl (ValueError ''All arrays must be of the same length'')))"

section \<open>Spike-triggered averaging: \<open>sta\<close> and \<open>st_muap\<close>\<close>

record emgfile =
  FSAMP :: rat
  IED :: rat
  NUMBER_OF_MUS :: nat
  MUPULSES :: "int list list"

type_synonym grid = "(string \<times> dataframe) list"

datatype firings = All | Range int int

definition timewindow_samples :: "rat \<Rightarrow> rat \<Rightarrow> int" where
  "timewindow_samples timewindow fsamp = py_round ((timewindow / 1000) * fsamp)"

definition halftime :: "rat \<Rightarrow> rat \<Rightarrow> int" where
  "halftime timewindow fsamp = py_round (of_int (timewindow_samples timewindow fsamp) / 2)"

definition tottime :: "rat \<Rightarrow> rat \<Rightarrow> int" where
  "tottime timewindow fsamp = halftime timewindow fsamp * 2"

text \<open>The loop over the pulses of one channel: incomplete windows are skipped.\<close>

fun sta_values_loop :: "val list \<Rightarrow> int \<Rightarrow> int \<Rightarrow> int list \<Rightarrow> val list list" where
  "sta_values_loop emg_array ht tt [] = []"
| "sta_values_loop emg_array ht tt (pulse # ps) =
     (let ls = py_slice emg_array (pulse - ht) (pulse + ht)
      in if int (length ls) = tt then ls # sta_values_loop emg_array ht tt ps
         else sta_values_loop emg_array ht tt ps)"

definition all_nan :: "val list \<Rightarrow> bool" where
  "all_nan xs = list_all (\<lambda>x. x = None) xs"

definition sta_values :: "val list \<Rightarrow> int \<Rightarrow> int \<Rightarrow> int list \<Rightarrow> py_error + val list list" where
  "sta_values emg_array ht tt thismups =
     (if length thismups > 0 then Inr (sta_values_loop emg_array ht tt thismups)
      else if all_nan emg_array then ebind (np_full tt None) (\<lambda>a. Inr [a])
      else ebind (np_full tt (Some 0)) (\<lambda>a. Inr [a]))"

fun sta_rows :: "(label \<times> val list) list \<Rightarrow> int \<Rightarrow> int \<Rightarrow> int list \<Rightarrow>
    (label \<times> ndvalue) list \<Rightarrow> py_error + (label \<times> ndvalue) list" where
  "sta_rows [] ht tt thismups row_dict = Inr row_dict"
| "sta_rows ((row, emg_array) # rs) ht tt thismups row_dict =
     ebind (sta_values emg_array ht tt thismups)
       (\<lambda>vs. sta_rows rs ht tt thismups (dict_set row (np_mean_axis0 vs) row_dict))"

fun sta_cols :: "grid \<Rightarrow> int \<Rightarrow> int \<Rightarrow> int list \<Rightarrow> grid \<Rightarrow> py_error + grid" where
  "sta_cols [] ht tt thismups sorted_rawemg_sta = Inr sorted_rawemg_sta"
| "sta_cols ((col, df) # cs) ht tt thismups sorted_rawemg_sta =
     ebind (sta_rows (cols df) ht tt thismups [])
       (\<lambda>row_dict. ebind (pd_DataFrame row_dict)
          (\<lambda>d. sta_cols cs ht tt thismups (dict_set col d sorted_rawemg_sta)))"

definition select_firings :: "firings \<Rightarrow> int list \<Rightarrow> int list" where
  "select_firings fr pulses =
     (case fr of
        All \<Rightarrow> py_slice pulses 0 (int (length pulses))
      | Range a b \<Rightarrow> py_slice pulses a b)"

definition sta_for_mu :: "emgfile \<Rightarrow> grid \<Rightarrow> firings \<Rightarrow> int \<Rightarrow> int \<Rightarrow> nat \<Rightarrow> py_error + grid" where
  "sta_for_mu emg sorted_rawemg fr ht tt mu =
     ebind (py_get (MUPULSES emg) mu)
       (\<lambda>pulses. sta_cols sorted_rawemg ht tt (select_firings fr pulses) [])"

definition sta :: "emgfile \<Rightarrow> grid \<Rightarrow> firings \<Rightarrow> rat \<Rightarrow> py_error + grid list" where
  "sta emg sorted_rawemg fr timewindow =
     (let ht = halftime timewindow (FSAMP emg); tt = tottime timewindow (FSAMP emg)
      in emap (sta_for_mu emg sorted_rawemg fr ht tt) [0..<NUMBER_OF_MUS emg])"

text \<open>\<open>st_muap\<close>: every complete window is kept as a trial of its own, keyed by its position.\<close>

fun crow_muaps_loop :: "val list \<Rightarrow> int \<Rightarrow> int \<Rightarrow> (nat \<times> int) list \<Rightarrow>
    (label \<times> ndvalue) list \<Rightarrow> (label \<times> ndvalue) list" where
  "crow_muaps_loop emg_array ht tt [] crow_muaps = crow_muaps"
| "crow_muaps_loop emg_array ht tt ((pos, pulse) # ps) crow_muaps =
     (let muap = py_slice emg_array (pulse - ht) (pulse + ht)
      in if int (length muap) = tt
         then crow_muaps_loop emg_array ht tt ps (dict_set (Chan (int pos)) (Arr muap) crow_muaps)
         else crow_muaps_loop emg_array ht tt ps crow_muaps)"

definition crow_muaps_of :: "val list \<Rightarrow> int \<Rightarrow> int \<Rightarrow> int list \<Rightarrow>
    py_error + (label \<times> ndvalue) list" where
  "crow_muaps_of emg_array ht tt thismups =
     (if length thismups > 0
      then Inr (crow_muaps_loop emg_array ht tt (enumerate 0 thismups) [])
      else if all_nan emg_array then ebind (np_full tt None) (\<lambda>a. Inr [(Chan 0, Arr a)])
      else ebind (np_full tt (Some 0)) (\<lambda>a. Inr [(Chan 0, Arr a)]))"

fun st_rows :: "(label \<times> val list) list \<Rightarrow> int \<Rightarrow> int \<Rightarrow> int list \<Rightarrow>
    (label \<times> dataframe) list \<Rightarrow> py_error + (label \<times> dataframe) list" where
  "st_rows [] ht tt thismups sta_dict_crows = Inr sta_dict_crows"
| "st_rows ((row, emg_array) # rs) ht tt thismups sta_dict_crows =
     ebind (crow_muaps_of emg_array ht tt thismups)
       (\<lambda>crow_muaps. ebind (pd_DataFrame crow_muaps)
          (\<lambda>d. st_rows rs ht tt thismups (dict_set row d sta_dict_crows)))"

fun st_cols :: "grid \<Rightarrow> int \<Rightarrow> int \<Rightarrow> int list \<Rightarrow>
    (string \<times> (label \<times> dataframe) list) list \<Rightarrow>
    py_error + (string \<times> (label \<times> dataframe) list) list" where
  "st_cols [] ht tt thismups sta_dict_cols = Inr sta_dict_cols"
| "st_cols ((col, df) # cs) ht tt thismups sta_dict_cols =
     ebind (st_rows (cols df) ht tt thismups [])
       (\<lambda>sta_dict_crows. st_cols cs ht tt thismups (dict_set col sta_dict_crows sta_dict_cols))"

definition st_muap_mu :: "emgfile \<Rightarrow> grid \<Rightarrow> int \<Rightarrow> int \<Rightarrow> nat \<Rightarrow>
    py_error + (string \<times> (label \<times> dataframe) list) list" where
  "st_muap_mu emg sorted_rawemg ht tt mu =
     ebind (py_get (MUPULSES emg) mu)
       (\<lambda>thismups. st_cols sorted_rawemg ht tt thismups [])"

definition st_muap :: "emgfile \<Rightarrow> grid \<Rightarrow> rat \<Rightarrow>
    py_error + (string \<times> (label \<times> dataframe) list) list list" where
  "st_muap emg sorted_rawemg timewindow =
     (let ht = halftime timewindow (FSAMP emg); tt = tottime timewindow (FSAMP emg)
      in emap (st_muap_mu emg sorted_rawemg ht tt) [0..<NUMBER_OF_MUS emg])"

subsection \<open>Shape predicates\<close>

definition rows_have_len :: "int \<Rightarrow> dataframe \<Rightarrow> bool" where
  "rows_have_len n df = list_all (\<lambda>c. int (length (snd c)) = n) (cols df)"

definition nd_ok :: "int \<Rightarrow> ndvalue \<Rightarrow> bool" where
  "nd_ok n v = (case v of Scalar _ \<Rightarrow> True | Arr xs \<Rightarrow> int (length xs) = n)"

definition trials_have_len :: "int \<Rightarrow> (label \<times> dataframe) list \<Rightarrow> bool" where
  "trials_have_len n crows = list_all (\<lambda>e. rows_have_len n (snd e)) crows"

definition sta_shape :: "int \<Rightarrow> grid list \<Rightarrow> bool" where
  "sta_shape n sta_dict = list_all (list_all (\<lambda>e. rows_have_len n (snd e))) sta_dict"

definition st_muap_shape :: "int \<Rightarrow> (string \<times> (label \<times> dataframe) list) list list \<Rightarrow> bool" where
  "st_muap_shape n stmuap = list_all (list_all (\<lambda>e. trials_have_len n (snd e))) stmuap"
section \<open>Packing and unpacking a template: \<open>unpack_sta\<close> and \<open>pack_sta\<close>\<close>

text \<open>
  \<open>pd.merge(left, right, left_index=True, right_index=True)\<close>: an inner join on the row
  index in the order of the left rows; a column label present on both sides is renamed.
\<close>

definition merge_pairs :: "int list \<Rightarrow> int list \<Rightarrow> (nat \<times> nat) list" where
  "merge_pairs li ri =
     concat (map (\<lambda>p. map (\<lambda>q. (p, q)) (filter (\<lambda>q. li ! p = ri ! q) [0..<length ri]))
       [0..<length li])"

definition pd_merge :: "dataframe \<Rightarrow> dataframe \<Rightarrow> dataframe" where
  "pd_merge left right =
     (let pairs = merge_pairs (index left) (index right);
          lnames = map fst (cols left);
          rnames = map fst (cols right)
      in \<lparr>index = map (\<lambda>(p, q). index left ! p) pairs,
          cols =
            map (\<lambda>(k, v). (if k \<in> set rnames then Suffix_x k else k,
                              map (\<lambda>(p, q). v ! p) pairs)) (cols left)
            @ map (\<lambda>(k, v). (if k \<in> set lnames then Suffix_y k else k,
                                map (\<lambda>(p, q). v ! q) pairs)) (cols right)\<rparr>)"

text \<open>\<open>functools.reduce(f, xs)\<close> without an initial value: the empty sequence is refused.\<close>

definition reduce :: "('a \<Rightarrow> 'a \<Rightarrow> 'a) \<Rightarrow> 'a list \<Rightarrow> py_error + 'a" where
  "reduce f xs = (case xs of [] \<Rightarrow> Inl TypeError | x # rest \<Rightarrow> Inr (foldl f x rest))"

definition unpack_sta :: "grid \<Rightarrow> py_error + dataframe \<times> string list" where
  "unpack_sta sta_mu =
     (let keys = map fst sta_mu;
          dfs = map snd sta_mu
      in ebind (reduce pd_merge dfs) (\<lambda>df1. Inr (df1, keys)))"

text \<open>\<open>df.iloc[:, a:b]\<close>: a positional slice of the columns.\<close>

definition iloc_cols :: "int \<Rightarrow> int \<Rightarrow> dataframe \<Rightarrow> dataframe" where
  "iloc_cols a b df = \<lparr>index = index df, cols = py_slice (cols df) a b\<rparr>"

definition pack_slice :: "nat \<Rightarrow> nat \<Rightarrow> py_error + int" where
  "pack_slice ncols nkeys =
     (if nkeys = 0 then Inl ZeroDivisionError
      else Inr \<lceil>(of_nat ncols :: rat) / of_nat nkeys\<rceil>)"

definition pack_sta :: "dataframe \<Rightarrow> string list \<Rightarrow> py_error + grid" where
  "pack_sta df_sta keys =
     ebind (pack_slice (length (cols df_sta)) (length keys))
       (\<lambda>slice. Inr (foldl
          (\<lambda>packed_sta (p, k).
             dict_set k (iloc_cols (slice * int p) (slice * (int p + 1)) df_sta) packed_sta)
          [] (enumerate 0 keys)))"

section \<open>Alignment by cross-correlation: \<open>align_by_xcorr\<close>\<close>

text \<open>\<open>df.dropna(axis=1)\<close>: the columns holding a NaN are dropped.\<close>

definition dropna_cols :: "dataframe \<Rightarrow> dataframe" where
  "dropna_cols df = \<lparr>index = index df, cols = filter (\<lambda>c. None \<notin> set (snd c)) (cols df)\<rparr>"

text \<open>\<open>scipy.signal.correlation_lags(in1_len, in2_len, mode="same")\<close>.\<close>

definition correlation_lags_same :: "nat \<Rightarrow> nat \<Rightarrow> int list" where
  "correlation_lags_same in1_len in2_len =
     (let lags = map (\<lambda>i. int i - int in2_len + 1) [0..<in1_len + in2_len - 1];
          mid = int (length lags div 2);
          lag_bound = int (in1_len div 2)
      in if even in1_len then py_slice lags (mid - lag_bound) (mid + lag_bound)
         else py_slice lags (mid - lag_bound) (mid + lag_bound + 1))"

definition set_index :: "int list \<Rightarrow> dataframe \<Rightarrow> py_error + dataframe" where
  "set_index labels df =
     (if length labels = length (index df) then Inr \<lparr>index = labels, cols = cols df\<rparr>
      else Inl (ValueError ''Length mismatch''))"

text \<open>
  \<open>Series.idxmax()\<close>: the label of the first largest cell, NaN cells skipped; NaN
  (\<open>None\<close>) when no cell is left.
\<close>

definition idxmax :: "int list \<Rightarrow> val list \<Rightarrow> int option" where
  "idxmax idx v =
     (case filter (\<lambda>p. v ! p \<noteq> None) [0..<length v] of
        [] \<Rightarrow> None
      | p # ps \<Rightarrow>
          (let m = foldl max (the (v ! p)) (map (\<lambda>q. the (v ! q)) ps)
           in Some (idx ! hd (filter (\<lambda>q. v ! q = Some m) (p # ps)))))"

text \<open>\<open>Series.median()\<close>, NaN entries skipped; NaN when nothing is left.\<close>

definition median :: "int option list \<Rightarrow> rat option" where
  "median xs =
     (let s = sort (map the (filter (\<lambda>x. x \<noteq> None) xs)); n = length s
      in if n = 0 then None
         else if odd n then Some (of_int (s ! (n div 2)))
         else Some ((of_int (s ! (n div 2 - 1)) + of_int (s ! (n div 2))) / 2))"

text \<open>Selecting rows by position, by label range (\<open>.loc[a:b]\<close>, both ends included) and by
  positional range (\<open>.iloc[a:b]\<close>).\<close>

definition select_rows :: "nat list \<Rightarrow> dataframe \<Rightarrow> dataframe" where
  "select_rows ps df =
     \<lparr>index = map (\<lambda>p. index df ! p) ps,
      cols = map (\<lambda>(k, v). (k, map (\<lambda>p. v ! p) ps)) (cols df)\<rparr>"

definition loc_rows :: "rat \<Rightarrow> rat \<Rightarrow> dataframe \<Rightarrow> dataframe" where
  "loc_rows start stop df =
     select_rows
       (filter (\<lambda>p. start \<le> of_int (index df ! p) \<and> of_int (index df ! p) \<le> stop)
          [0..<length (index df)]) df"

definition iloc_rows :: "int \<Rightarrow> int \<Rightarrow> dataframe \<Rightarrow> dataframe" where
  "iloc_rows a b df =
     \<lparr>index = py_slice (index df) a b,
      cols = map (\<lambda>(k, v). (k, py_slice v a b)) (cols df)\<rparr>"

definition reset_index :: "dataframe \<Rightarrow> dataframe" where
  "reset_index df = \<lparr>index = map int [0..<length (index df)], cols = cols df\<rparr>"

definition finalduration_samples :: "dataframe \<Rightarrow> rat \<Rightarrow> int" where
  "finalduration_samples df1 finalduration =
     py_round (of_nat (length (index df1)) * finalduration)"

text \<open>The guard on the lag (lines 714--716): only a lag above the bound is replaced.\<close>

definition clamp_lag :: "int \<Rightarrow> rat \<Rightarrow> rat" where
  "clamp_lag fds lag = (if lag > of_int fds / 2 then of_int fds / 2 else lag)"

text \<open>
  The first half of \<open>align_by_xcorr\<close>, up to the lag that is used for the shift.  The
  two-dimensional normalised cross-correlation \<open>norm_twod_xcorr(..., mode="same")\<close> lives in
  \<open>mathtools\<close>; it is the parameter \<open>xcorr_same\<close>, returning the frame \<open>normxcorr_df\<close>.
  A lag that is NaN (no channel left, or only NaN correlations) and an empty row index
  leave the label slices below without bounds; both cases are modelled as a failure.
\<close>

record alignment =
  al_df1 :: dataframe
  al_df2 :: dataframe
  al_keys :: "string list"
  al_lags :: "int list"
  al_fds :: int
  al_lag :: rat

definition align_lag ::
  "(dataframe \<Rightarrow> dataframe \<Rightarrow> py_error + dataframe) \<Rightarrow> grid \<Rightarrow> grid \<Rightarrow> rat \<Rightarrow>
   py_error + alignment" where
  "align_lag xcorr_same sta_mu1 sta_mu2 finalduration =
     ebind (unpack_sta sta_mu1) (\<lambda>(df1, d_keys1).
     ebind (unpack_sta sta_mu2) (\<lambda>(df2, d_keys).
     ebind (xcorr_same (dropna_cols df1) (dropna_cols df2)) (\<lambda>normxcorr_df0.
       let corr_lags = correlation_lags_same (length (index df1)) (length (index df2))
       in ebind (set_index corr_lags normxcorr_df0) (\<lambda>normxcorr_df.
          case median (map (\<lambda>c. idxmax (index normxcorr_df) (snd c)) (cols normxcorr_df)) of
            None \<Rightarrow> Inl (ValueError ''lag is NaN'')
          | Some lag \<Rightarrow>
              (let fds = finalduration_samples df1 finalduration
               in Inr \<lparr>al_df1 = df1, al_df2 = df2, al_keys = d_keys,
                       al_lags = corr_lags, al_fds = fds,
                       al_lag = clamp_lag fds lag\<rparr>)))))"

text \<open>The second half: shift by the lag, cut to the final duration, reindex and repack.\<close>

definition align_cut :: "alignment \<Rightarrow> py_error + grid \<times> grid" where
  "align_cut a =
     (if al_lags a = [] then Inl (ValueError ''empty index'')
      else
        let lag = al_lag a;
            dfmin = (of_int (Min (set (al_lags a))) :: rat);
            dfmax = (of_int (Max (set (al_lags a))) :: rat);
            start1 = (if lag > 0 then dfmin + \<bar>lag\<bar> else dfmin);
            stop1 = (if lag > 0 then dfmax else dfmax - \<bar>lag\<bar>);
            start2 = (if lag < 0 then dfmin + \<bar>lag\<bar> else dfmin);
            stop2 = (if lag < 0 then dfmax else dfmax - \<bar>lag\<bar>)
        in ebind (set_index (al_lags a) (al_df1 a)) (\<lambda>df1i.
           ebind (set_index (al_lags a) (al_df2 a)) (\<lambda>df2i.
             let df1cut = loc_rows start1 stop1 df1i;
                 df2cut = loc_rows start2 stop2 df2i;
                 tocutstart =
                   py_round ((of_nat (length (index df1cut)) - of_int (al_fds a)) / 2);
                 tocutend = py_round (of_int (int (length (index df1cut)) - tocutstart));
                 df1cut' = reset_index (iloc_rows tocutstart tocutend df1cut);
                 df2cut' = reset_index (iloc_rows tocutstart tocutend df2cut)
             in ebind (pack_sta df1cut' (al_keys a)) (\<lambda>aligned_sta1.
                ebind (pack_sta df2cut' (al_keys a)) (\<lambda>aligned_sta2.
                  Inr (aligned_sta1, aligned_sta2))))))"

definition align_by_xcorr ::
  "(dataframe \<Rightarrow> dataframe \<Rightarrow> py_error + dataframe) \<Rightarrow> grid \<Rightarrow> grid \<Rightarrow> rat \<Rightarrow>
   py_error + grid \<times> grid" where
  "align_by_xcorr xcorr_same sta_mu1 sta_mu2 finalduration =
     ebind (align_lag xcorr_same sta_mu1 sta_mu2 finalduration) align_cut"

section \<open>Spatial derivations: \<open>diff\<close> and \<open>double_diff\<close>\<close>

text \<open>\<open>df.loc[:, label]\<close>: the column with that label; a missing label is a \<open>KeyError\<close>.\<close>

definition loc_col :: "dataframe \<Rightarrow> label \<Rightarrow> py_error + val list" where
  "loc_col df l = (case map_of (cols df) l of None \<Rightarrow> Inl KeyError | Some v \<Rightarrow> Inr v)"

definition fsub :: "val \<Rightarrow> val \<Rightarrow> val" where
  "fsub a b = (case (a, b) of (Some x, Some y) \<Rightarrow> Some (x - y) | _ \<Rightarrow> None)"

definition fadd :: "val \<Rightarrow> val \<Rightarrow> val" where
  "fadd a b = (case (a, b) of (Some x, Some y) \<Rightarrow> Some (x + y) | _ \<Rightarrow> None)"

definition fscale :: "rat \<Rightarrow> val \<Rightarrow> val" where
  "fscale c a = map_option (\<lambda>x. c * x) a"

text \<open>\<open>pd.DataFrame(d)\<close> for a dict of Series over the row index \<open>idx\<close>.\<close>

definition frame_of_series :: "int list \<Rightarrow> (label \<times> val list) list \<Rightarrow> dataframe" where
  "frame_of_series idx d = (if d = [] then \<lparr>index = [], cols = []\<rparr> else \<lparr>index = idx, cols = d\<rparr>)"

fun diff_rows :: "dataframe \<Rightarrow> (nat \<times> label) list \<Rightarrow> (label \<times> val list) list \<Rightarrow>
    py_error + (label \<times> val list) list" where
  "diff_rows df [] sd_col = Inr sd_col"
| "diff_rows df ((pos, row) # rest) sd_col =
     (if pos > 0 then
        (case row of
           Chan r \<Rightarrow>
             ebind (loc_col df (Chan (r - 1))) (\<lambda>a.
             ebind (loc_col df (Chan r)) (\<lambda>b.
               diff_rows df rest (dict_set row (map2 fsub a b) sd_col)))
         | _ \<Rightarrow> Inl TypeError)
      else diff_rows df rest sd_col)"

definition diff :: "grid \<Rightarrow> py_error + grid" where
  "diff sorted_rawemg =
     emap (\<lambda>(col, df).
        ebind (diff_rows df (enumerate 0 (columns df)) [])
          (\<lambda>sd_col. Inr (col, frame_of_series (index df) sd_col)))
       sorted_rawemg"

fun double_diff_rows :: "dataframe \<Rightarrow> (nat \<times> label) list \<Rightarrow> (label \<times> val list) list \<Rightarrow>
    py_error + (label \<times> val list) list" where
  "double_diff_rows df [] dd_col = Inr dd_col"
| "double_diff_rows df ((pos, row) # rest) dd_col =
     (if pos > 1 then
        (case row of
           Chan r \<Rightarrow>
             ebind (loc_col df (Chan (r - 2))) (\<lambda>a.
             ebind (loc_col df (Chan (r - 1))) (\<lambda>b.
             ebind (loc_col df (Chan r)) (\<lambda>c.
               double_diff_rows df rest
                 (dict_set row
                    (map2 fsub (map2 fadd (map (fscale (- 1)) a) (map (fscale 2) b)) c)
                    dd_col))))
         | _ \<Rightarrow> Inl TypeError)
      else double_diff_rows df rest dd_col)"

definition double_diff :: "grid \<Rightarrow> py_error + grid" where
  "double_diff sorted_rawemg =
     emap (\<lambda>(col, df).
        ebind (double_diff_rows df (enumerate 0 (columns df)) [])
          (\<lambda>dd_col. Inr (col, frame_of_series (index df) dd_col)))
       sorted_rawemg"

section \<open>Tracking motor units across two files: \<open>tracking\<close>\<close>

text \<open>
  The argument \<open>custom_muaps\<close>: anything that is not a list (the default \<open>None\<close>
  included), or a list whose items are dicts of templates or something else.
\<close>

datatype custom_item = PyDict "grid list" | NotADict

datatype custom_muaps_arg = NotAList | PyList "custom_item list"

definition is_list :: "custom_muaps_arg \<Rightarrow> bool" where
  "is_list c = (case c of NotAList \<Rightarrow> False | PyList _ \<Rightarrow> True)"

text \<open>
  The first phase of \<open>tracking\<close>: the two collections of templates.  The sorting of the
  channels (\<open>electrodes.sort_rawemg\<close>) is the parameter \<open>sort_rawemg\<close>; its arguments
  \<open>matrixcode\<close>, \<open>orientation\<close>, \<open>n_rows\<close>, \<open>n_cols\<close> and \<open>custom_sorting_order\<close> are
  the value \<open>sorting\<close>.
\<close>

definition derive :: "string \<Rightarrow> grid \<Rightarrow> grid \<Rightarrow> py_error + grid \<times> grid" where
  "derive derivation emgfile1_sorted emgfile2_sorted =
     (if derivation = ''mono'' then Inr (emgfile1_sorted, emgfile2_sorted)
      else if derivation = ''sd'' then
        ebind (diff emgfile1_sorted) (\<lambda>e1. ebind (diff emgfile2_sorted) (\<lambda>e2. Inr (e1, e2)))
      else if derivation = ''dd'' then
        ebind (double_diff emgfile1_sorted) (\<lambda>e1.
        ebind (double_diff emgfile2_sorted) (\<lambda>e2. Inr (e1, e2)))
      else Inl (ValueError
        (''derivation can be one of mono, sd, dd. '' @ derivation @ '' was passed instead'')))"

definition obtain_stas ::
  "(emgfile \<Rightarrow> 'c \<Rightarrow> py_error + grid) \<Rightarrow> emgfile \<Rightarrow> emgfile \<Rightarrow> firings \<Rightarrow> string \<Rightarrow> rat \<Rightarrow>
   'c \<Rightarrow> custom_muaps_arg \<Rightarrow> py_error + grid list \<times> grid list" where
  "obtain_stas sort_rawemg emgfile1 emgfile2 fr derivation timewindow sorting custom_muaps =
     (case custom_muaps of
        NotAList \<Rightarrow>
          ebind (sort_rawemg emgfile1 sorting) (\<lambda>emgfile1_sorted.
          ebind (sort_rawemg emgfile2 sorting) (\<lambda>emgfile2_sorted.
          ebind (derive derivation emgfile1_sorted emgfile2_sorted) (\<lambda>(e1, e2).
          ebind (sta emgfile1 e1 fr (timewindow * 2)) (\<lambda>sta_emgfile1.
          ebind (sta emgfile2 e2 fr (timewindow * 2)) (\<lambda>sta_emgfile2.
            Inr (sta_emgfile1, sta_emgfile2))))))
      | PyList items \<Rightarrow>
          (if length items = 2 then
             (case items ! 0 of
                NotADict \<Rightarrow> Inl (ValueError ''custom_muaps[0] is not a dictionary'')
              | PyDict sta_emgfile1 \<Rightarrow>
                  (case items ! 1 of
                     NotADict \<Rightarrow> Inl (ValueError ''custom_muaps[1] is not a dictionary'')
                   | PyDict sta_emgfile2 \<Rightarrow> Inr (sta_emgfile1, sta_emgfile2)))
           else Inl (ValueError ''custom_muaps is not a list of two dictionaries'')))"

text \<open>
  The comparison of one pair of MUs: alignment (unless the templates are custom), then
  the maximum of the full two-dimensional normalised cross-correlation, which is the
  parameter \<open>xcorr_full\<close> (\<open>norm_twod_xcorr(..., mode="full")\<close> of \<open>mathtools\<close>).
\<close>

definition dict_get :: "'a list \<Rightarrow> nat \<Rightarrow> py_error + 'a" where
  "dict_get d k = (if k < length d then Inr (d ! k) else Inl KeyError)"

definition compare_pair ::
  "(dataframe \<Rightarrow> dataframe \<Rightarrow> py_error + dataframe) \<Rightarrow>
   (dataframe \<Rightarrow> dataframe \<Rightarrow> py_error + rat) \<Rightarrow>
   custom_muaps_arg \<Rightarrow> grid list \<Rightarrow> grid list \<Rightarrow> nat \<Rightarrow> nat \<Rightarrow> py_error + rat" where
  "compare_pair xcorr_same xcorr_full custom_muaps sta_emgfile1 sta_emgfile2 mu_file1 mu_file2 =
     ebind (dict_get sta_emgfile1 mu_file1) (\<lambda>s1.
     ebind (dict_get sta_emgfile2 mu_file2) (\<lambda>s2.
     ebind (if \<not> is_list custom_muaps then align_by_xcorr xcorr_same s1 s2 (1 / 2)
            else Inr (s1, s2)) (\<lambda>(aligned_sta1, aligned_sta2).
     ebind (unpack_sta aligned_sta1) (\<lambda>(df1, _).
     ebind (unpack_sta aligned_sta2) (\<lambda>(df2, _).
       xcorr_full (dropna_cols df1) (dropna_cols df2))))))"

text \<open>The result of one task: three lists of equal length, one entry per retained pair.\<close>

record res =
  MU_file1 :: "nat list"
  MU_file2 :: "nat list"
  XCC :: "rat list"

definition res_append :: "nat \<Rightarrow> nat \<Rightarrow> rat \<Rightarrow> res \<Rightarrow> res" where
  "res_append m1 m2 x r =
     \<lparr>MU_file1 = MU_file1 r @ [m1], MU_file2 = MU_file2 r @ [m2], XCC = XCC r @ [x]\<rparr>"

fun parallel_loop :: "(nat \<Rightarrow> nat \<Rightarrow> py_error + rat) \<Rightarrow> bool \<Rightarrow> rat \<Rightarrow> nat \<Rightarrow> nat list \<Rightarrow>
    res \<Rightarrow> py_error + res" where
  "parallel_loop cmp exclude_belowthreshold threshold mu_file1 [] r = Inr r"
| "parallel_loop cmp exclude_belowthreshold threshold mu_file1 (mu_file2 # rest) r =
     ebind (cmp mu_file1 mu_file2) (\<lambda>normxcorr_max.
       if exclude_belowthreshold = False then
         parallel_loop cmp exclude_belowthreshold threshold mu_file1 rest
           (res_append mu_file1 mu_file2 normxcorr_max r)
       else if exclude_belowthreshold \<and> normxcorr_max \<ge> threshold then
         parallel_loop cmp exclude_belowthreshold threshold mu_file1 rest
           (res_append mu_file1 mu_file2 normxcorr_max r)
       else parallel_loop cmp exclude_belowthreshold threshold mu_file1 rest r)"

definition parallel :: "(nat \<Rightarrow> nat \<Rightarrow> py_error + rat) \<Rightarrow> bool \<Rightarrow> rat \<Rightarrow> nat \<Rightarrow> nat \<Rightarrow>
    py_error + res" where
  "parallel cmp exclude_belowthreshold threshold n2 mu_file1 =
     parallel_loop cmp exclude_belowthreshold threshold mu_file1 [0..<n2]
       \<lparr>MU_file1 = [], MU_file2 = [], XCC = []\<rparr>"

text \<open>
  The two ways of running the tasks.  \<open>joblib.Parallel\<close> returns the results of the
  delayed calls as a list in the order of submission; the serial branch appends them
  one by one.
\<close>

definition joblib_Parallel :: "(nat \<Rightarrow> py_error + res) \<Rightarrow> nat list \<Rightarrow> py_error + res list" where
  "joblib_Parallel task mus = emap task mus"

fun serial_loop :: "(nat \<Rightarrow> py_error + res) \<Rightarrow> nat list \<Rightarrow> res list \<Rightarrow> py_error + res list" where
  "serial_loop task [] rs = Inr rs"
| "serial_loop task (mu_file1 # rest) rs =
     ebind (task mu_file1) (\<lambda>r. serial_loop task rest (rs @ [r]))"

text \<open>The table of results: one row \<open>(MU_file1, MU_file2, XCC)\<close> per retained pair.\<close>

type_synonym row = "nat \<times> nat \<times> rat"

definition mu1 :: "row \<Rightarrow> nat" where "mu1 r = fst r"
definition mu2 :: "row \<Rightarrow> nat" where "mu2 r = fst (snd r)"
definition xcc :: "row \<Rightarrow> rat" where "xcc r = snd (snd r)"

definition to_rows :: "res \<Rightarrow> row list" where
  "to_rows r = zip (MU_file1 r) (zip (MU_file2 r) (XCC r))"

definition concat_step :: "row list \<Rightarrow> row list \<Rightarrow> row list" where
  "concat_step tracking_res new_tracking_res =
     (let t = (if tracking_res = [] \<and> new_tracking_res \<noteq> [] then new_tracking_res
               else tracking_res)
      in if t \<noteq> [] \<and> new_tracking_res \<noteq> [] then t @ new_tracking_res else t)"

definition to_table :: "res list \<Rightarrow> py_error + row list" where
  "to_table rs =
     (case rs of
        [] \<Rightarrow> Inl UnboundLocalError
      | i # rest \<Rightarrow> Inr (foldl concat_step (to_rows i) (map to_rows rest)))"

text \<open>
  The filter phase.  \<open>sort_values(by=[a, b], ascending=False)\<close> is a stable sort in
  descending lexicographic order, written as the stable ascending sort on the negated
  keys; \<open>unique()\<close> lists the values in order of first appearance.  The last sort, by
  \<open>MU_file1\<close> alone, meets pairwise different keys, so the sorting algorithm does not
  matter there.  The scores are finite numbers.
\<close>

definition key_mu1_xcc_desc :: "row \<Rightarrow> int \<times> rat" where
  "key_mu1_xcc_desc r = (- int (mu1 r), - xcc r)"

definition key_mu2_xcc_desc :: "row \<Rightarrow> int \<times> rat" where
  "key_mu2_xcc_desc r = (- int (mu2 r), - xcc r)"

definition key_mu1_asc_xcc_desc :: "row \<Rightarrow> int \<times> rat" where
  "key_mu1_asc_xcc_desc r = (int (mu1 r), - xcc r)"

fun unique :: "'a list \<Rightarrow> 'a list" where
  "unique [] = []"
| "unique (x # xs) = x # unique (filter (\<lambda>y. y \<noteq> x) xs)"

definition iloc0 :: "row list \<Rightarrow> py_error + row" where
  "iloc0 this_res = (case this_res of [] \<Rightarrow> Inl IndexError | r # _ \<Rightarrow> Inr r)"

definition first_rows :: "(row \<Rightarrow> nat) \<Rightarrow> row list \<Rightarrow> py_error + row list" where
  "first_rows col tracking_res =
     emap (\<lambda>mu. iloc0 (filter (\<lambda>r. col r = mu) tracking_res))
       (unique (map col tracking_res))"

definition filter_results :: "row list \<Rightarrow> py_error + row list" where
  "filter_results tracking_res =
     ebind (first_rows mu1 (sort_key key_mu1_xcc_desc tracking_res)) (\<lambda>res_unique.
     ebind (first_rows mu2 (sort_key key_mu2_xcc_desc res_unique)) (\<lambda>res_unique2.
       Inr (sort_key mu1 res_unique2)))"

text \<open>
  The candidate table: templates, comparison of every pair, threshold, concatenation.
  Plotting and the GUI (\<open>show\<close>, \<open>gui\<close>) are left out: the table is returned as computed.
\<close>

definition tracking_candidates ::
  "(emgfile \<Rightarrow> 'c \<Rightarrow> py_error + grid) \<Rightarrow>
   (dataframe \<Rightarrow> dataframe \<Rightarrow> py_error + dataframe) \<Rightarrow>
   (dataframe \<Rightarrow> dataframe \<Rightarrow> py_error + rat) \<Rightarrow>
   emgfile \<Rightarrow> emgfile \<Rightarrow> firings \<Rightarrow> string \<Rightarrow> rat \<Rightarrow> rat \<Rightarrow> 'c \<Rightarrow> custom_muaps_arg \<Rightarrow>
   bool \<Rightarrow> bool \<Rightarrow> py_error + row list" where
  "tracking_candidates sort_rawemg xcorr_same xcorr_full emgfile1 emgfile2 fr derivation
     timewindow threshold sorting custom_muaps exclude_belowthreshold multiprocessing =
     ebind (obtain_stas sort_rawemg emgfile1 emgfile2 fr derivation timewindow sorting
              custom_muaps) (\<lambda>(sta_emgfile1, sta_emgfile2).
       let task = parallel
             (compare_pair xcorr_same xcorr_full custom_muaps sta_emgfile1 sta_emgfile2)
             exclude_belowthreshold threshold (NUMBER_OF_MUS emgfile2)
       in ebind (if multiprocessing
                 then joblib_Parallel task [0..<NUMBER_OF_MUS emgfile1]
                 else serial_loop task [0..<NUMBER_OF_MUS emgfile1] [])
            to_table)"

definition tracking ::
  "(emgfile \<Rightarrow> 'c \<Rightarrow> py_error + grid) \<Rightarrow>
   (dataframe \<Rightarrow> dataframe \<Rightarrow> py_error + dataframe) \<Rightarrow>
   (dataframe \<Rightarrow> dataframe \<Rightarrow> py_error + rat) \<Rightarrow>
   emgfile \<Rightarrow> emgfile \<Rightarrow> firings \<Rightarrow> string \<Rightarrow> rat \<Rightarrow> rat \<Rightarrow> 'c \<Rightarrow> custom_muaps_arg \<Rightarrow>
   bool \<Rightarrow> bool \<Rightarrow> bool \<Rightarrow> py_error + row list" where
  "tracking sort_rawemg xcorr_same xcorr_full emgfile1 emgfile2 fr derivation
     timewindow threshold sorting custom_muaps exclude_belowthreshold filter_on
     multiprocessing =
     ebind (tracking_candidates sort_rawemg xcorr_same xcorr_full emgfile1 emgfile2 fr
              derivation timewindow threshold sorting custom_muaps exclude_belowthreshold
              multiprocessing) (\<lambda>tracking_res.
       if filter_on then filter_results tracking_res
       else Inr (sort_key key_mu1_asc_xcc_desc tracking_res))"

section \<open>Conduction velocity: \<open>estimate_cv_via_mle\<close>\<close>

text \<open>
  \<open>signal.to_numpy().T\<close> is the list of the channels.  The two estimators
  \<open>find_mle_teta\<close> and \<open>mle_cv_est\<close> live in \<open>mathtools\<close> and are parameters.
\<close>

definition np_row :: "val list list \<Rightarrow> nat \<Rightarrow> py_error + val list" where
  "np_row sig i = (if i < length sig then Inr (sig ! i) else Inl IndexError)"

definition estimate_cv_via_mle ::
  "(val list \<Rightarrow> val list \<Rightarrow> rat \<Rightarrow> rat \<Rightarrow> py_error + rat) \<Rightarrow>
   (val list list \<Rightarrow> rat \<Rightarrow> rat \<Rightarrow> rat \<Rightarrow> py_error + rat \<times> rat) \<Rightarrow>
   emgfile \<Rightarrow> dataframe \<Rightarrow> py_error + rat" where
  "estimate_cv_via_mle find_mle_teta mle_cv_est emg signal =
     (let ied = IED emg; fsamp = FSAMP emg; sig = map snd (cols signal)
      in ebind (if length sig > 3
                then ebind (np_row sig 1) (\<lambda>sig1. ebind (np_row sig 2) (\<lambda>sig2. Inr (sig1, sig2)))
                else ebind (np_row sig 0) (\<lambda>sig1. ebind (np_row sig 1) (\<lambda>sig2. Inr (sig1, sig2))))
           (\<lambda>(sig1, sig2).
              ebind (find_mle_teta sig1 sig2 ied fsamp) (\<lambda>teta.
              ebind (mle_cv_est sig teta ied fsamp) (\<lambda>(cv, teta'). Inr \<bar>cv\<bar>))))"

section \<open>Auxiliary notions for the statements\<close>

text \<open>The three lists of a task result have the same length.\<close>

definition res_ok :: "res \<Rightarrow> bool" where
  "res_ok r \<longleftrightarrow> length (MU_file1 r) = length (MU_file2 r) \<and> length (MU_file2 r) = length (XCC r)"

text \<open>The first row of the group of \<open>mu\<close> in a table, where the group is not empty.\<close>

definition first_of :: "(row \<Rightarrow> nat) \<Rightarrow> row list \<Rightarrow> nat \<Rightarrow> row" where
  "first_of col t mu = hd (filter (\<lambda>r. col r = mu) t)"

text \<open>
  The configurations that \<open>tracking\<close> refuses: without custom templates, a derivation
  other than \<open>mono\<close>, \<open>sd\<close>, \<open>dd\<close> once both files are sorted; with custom templates, a
  list that is not made of exactly two dicts.
\<close>

definition bad_configuration ::
  "(emgfile \<Rightarrow> 'c \<Rightarrow> py_error + grid) \<Rightarrow> emgfile \<Rightarrow> emgfile \<Rightarrow> 'c \<Rightarrow> string \<Rightarrow>
   custom_muaps_arg \<Rightarrow> bool" where
  "bad_configuration sort_rawemg emgfile1 emgfile2 sorting derivation custom_muaps =
     (case custom_muaps of
        NotAList \<Rightarrow>
          \<not> isl (sort_rawemg emgfile1 sorting) \<and> \<not> isl (sort_rawemg emgfile2 sorting) \<and>
          derivation \<notin> set [''mono'', ''sd'', ''dd'']
      | PyList items \<Rightarrow>
          length items \<noteq> 2 \<or> items ! 0 = NotADict \<or> items ! 1 = NotADict)"

subsection \<open>Example inputs\<close>

text \<open>
  An emgfile with \<open>n\<close> MUs without firings, stand-ins for the external functions, and
  one-cell templates whose similarity is \<open>1 - |a - b| / 10\<close>.
\<close>

definition example_emg :: "nat \<Rightarrow> emgfile" where
  "example_emg n = \<lparr>FSAMP = 2048, IED = 8, NUMBER_OF_MUS = n, MUPULSES = replicate n []\<rparr>"

definition no_sorting :: "emgfile \<Rightarrow> unit \<Rightarrow> py_error + grid" where
  "no_sorting emg sorting = Inr [(''col0'', \<lparr>index = [0], cols = [(Chan 0, [Some 0])]\<rparr>)]"

definition no_xcorr :: "dataframe \<Rightarrow> dataframe \<Rightarrow> py_error + dataframe" where
  "no_xcorr a b = Inl TypeError"

definition one_cell :: "rat \<Rightarrow> grid" where
  "one_cell v = [(''col0'', \<lparr>index = [0], cols = [(Chan 0, [Some v])]\<rparr>)]"

definition cell_score :: "dataframe \<Rightarrow> dataframe \<Rightarrow> py_error + rat" where
  "cell_score a b =
     Inr (1 - \<bar>the (hd (snd (hd (cols a)))) - the (hd (snd (hd (cols b))))\<bar> / 10)"


section \<open>Results\<close>

subsection \<open>Error handling and dictionaries\<close>

lemma ebind_Inr_iff: "ebind m f = Inr y \<longleftrightarrow> (\<exists>x. m = Inr x \<and> f x = Inr y)"
  by (cases m) (simp_all add: ebind_def)

lemma emap_Inr_all:
  "emap f xs = Inr ys \<Longrightarrow> \<forall>y \<in> set ys. \<exists>x \<in> set xs. f x = Inr y"
  by (induction xs arbitrary: ys) (fastforce simp: ebind_Inr_iff)+

lemma emap_Inr_length: "emap f xs = Inr ys \<Longrightarrow> length ys = length xs"
  by (induction xs arbitrary: ys) (auto simp: ebind_Inr_iff)

lemma set_dict_set: "set (dict_set k v d) \<subseteq> insert (k, v) (set d)"
  by (induction d) (auto split: if_splits)

lemma dict_set_all:
  "P v \<Longrightarrow> \<forall>e \<in> set d. P (snd e) \<Longrightarrow> \<forall>e \<in> set (dict_set k v d). P (snd e)"
  using set_dict_set [of k v d] by auto

subsection \<open>Shape of the extracted templates\<close>

lemma sta_values_loop_len:
  "\<forall>ls \<in> set (sta_values_loop emg_array ht tt ps). int (length ls) = tt"
  by (induction ps) (auto simp: Let_def)

lemma np_full_len: "np_full n v = Inr a \<Longrightarrow> int (length a) = n"
  by (auto simp: np_full_def split: if_splits)

lemma sta_values_len:
  "sta_values emg_array ht tt thismups = Inr vs \<Longrightarrow> \<forall>ls \<in> set vs. int (length ls) = tt"
  using sta_values_loop_len [of emg_array ht tt thismups]
  by (auto simp: sta_values_def ebind_Inr_iff dest: np_full_len split: if_splits)

lemma np_mean_axis0_ok:
  "\<forall>ls \<in> set vs. int (length ls) = tt \<Longrightarrow> nd_ok tt (np_mean_axis0 vs)"
  by (cases vs) (simp_all add: np_mean_axis0_def nd_ok_def)

lemma sta_rows_ok:
  "sta_rows rs ht tt thismups row_dict = Inr d \<Longrightarrow>
   \<forall>e \<in> set row_dict. nd_ok tt (snd e) \<Longrightarrow> \<forall>e \<in> set d. nd_ok tt (snd e)"
proof (induction rs arbitrary: row_dict)
  case Nil
  then show ?case by simp
next
  case (Cons r rs)
  obtain row emg_array where r: "r = (row, emg_array)" by (cases r)
  from Cons.prems(1) r obtain vs where
    vs: "sta_values emg_array ht tt thismups = Inr vs" and
    rest: "sta_rows rs ht tt thismups (dict_set row (np_mean_axis0 vs) row_dict) = Inr d"
    by (auto simp: ebind_Inr_iff)
  have "nd_ok tt (np_mean_axis0 vs)"
    using sta_values_len [OF vs] by (rule np_mean_axis0_ok)
  then have "\<forall>e \<in> set (dict_set row (np_mean_axis0 vs) row_dict). nd_ok tt (snd e)"
    using Cons.prems(2) by (rule dict_set_all)
  with Cons.IH [OF rest] show ?case by blast
qed

lemma pd_DataFrame_rows:
  assumes "pd_DataFrame d = Inr df" and "\<forall>e \<in> set d. nd_ok tt (snd e)"
  shows "rows_have_len tt df"
proof (cases "d = []")
  case True
  with assms(1) show ?thesis by (auto simp: pd_DataFrame_def rows_have_len_def)
next
  case False
  with assms(1) obtain a as where
    f: "filter is_arr (map snd d) = a # as" and
    df: "df = \<lparr>index = map int [0..<nd_len a],
              cols = map (\<lambda>(k, v). (k, nd_cells (nd_len a) v)) d\<rparr>"
    by (auto simp: pd_DataFrame_def split: list.splits if_splits)
  from f have "a \<in> set (filter is_arr (map snd d))" by simp
  then have a: "is_arr a" "a \<in> snd ` set d" by auto
  with assms(2) have "nd_ok tt a" by auto
  with a(1) have la: "int (nd_len a) = tt"
    by (cases a) (simp_all add: nd_ok_def nd_len_def is_arr_def)
  have "int (length (nd_cells (nd_len a) v)) = tt" if "(k, v) \<in> set d" for k v
  proof -
    from assms(2) that have "nd_ok tt v" by force
    with la show ?thesis by (cases v) (simp_all add: nd_ok_def nd_cells_def)
  qed
  then show ?thesis
    by (auto simp: rows_have_len_def df list_all_iff)
qed

lemma sta_cols_ok:
  "sta_cols cs ht tt thismups acc = Inr g \<Longrightarrow>
   \<forall>e \<in> set acc. rows_have_len tt (snd e) \<Longrightarrow> \<forall>e \<in> set g. rows_have_len tt (snd e)"
proof (induction cs arbitrary: acc)
  case Nil
  then show ?case by simp
next
  case (Cons c cs)
  obtain col df where c: "c = (col, df)" by (cases c)
  from Cons.prems(1) c obtain row_dict d where
    rd: "sta_rows (cols df) ht tt thismups [] = Inr row_dict" and
    d: "pd_DataFrame row_dict = Inr d" and
    rest: "sta_cols cs ht tt thismups (dict_set col d acc) = Inr g"
    by (auto simp: ebind_Inr_iff)
  have "\<forall>e \<in> set row_dict. nd_ok tt (snd e)"
    using sta_rows_ok [OF rd] by simp
  then have "rows_have_len tt d" using pd_DataFrame_rows [OF d] by blast
  then have "\<forall>e \<in> set (dict_set col d acc). rows_have_len tt (snd e)"
    using Cons.prems(2) by (rule dict_set_all)
  with Cons.IH [OF rest] show ?case by blast
qed

lemma sta_row_length:
  assumes "sta emg sorted_rawemg fr timewindow = Inr sta_dict"
  shows "\<forall>mu_sta \<in> set sta_dict. \<forall>e \<in> set mu_sta.
           rows_have_len (tottime timewindow (FSAMP emg)) (snd e)"
proof (intro ballI)
  fix mu_sta e assume m: "mu_sta \<in> set sta_dict" and e: "e \<in> set mu_sta"
  let ?ht = "halftime timewindow (FSAMP emg)" and ?tt = "tottime timewindow (FSAMP emg)"
  from assms have "emap (sta_for_mu emg sorted_rawemg fr ?ht ?tt) [0..<NUMBER_OF_MUS emg] = Inr sta_dict"
    by (simp add: sta_def Let_def)
  from emap_Inr_all [OF this] m obtain mu where
    "sta_for_mu emg sorted_rawemg fr ?ht ?tt mu = Inr mu_sta" by blast
  then obtain thismups where "sta_cols sorted_rawemg ?ht ?tt thismups [] = Inr mu_sta"
    by (auto simp: sta_for_mu_def ebind_Inr_iff)
  from sta_cols_ok [OF this] e show "rows_have_len ?tt (snd e)" by simp
qed


lemma crow_muaps_loop_ok:
  "\<forall>e \<in> set acc. nd_ok tt (snd e) \<Longrightarrow>
   \<forall>e \<in> set (crow_muaps_loop emg_array ht tt ps acc). nd_ok tt (snd e)"
proof (induction ps arbitrary: acc)
  case Nil
  then show ?case by simp
next
  case (Cons p ps)
  obtain pos pulse where p: "p = (pos, pulse)" by (cases p)
  let ?muap = "py_slice emg_array (pulse - ht) (pulse + ht)"
  show ?case
  proof (cases "int (length ?muap) = tt")
    case True
    then have "nd_ok tt (Arr ?muap)" by (simp add: nd_ok_def)
    then have "\<forall>e \<in> set (dict_set (Chan (int pos)) (Arr ?muap) acc). nd_ok tt (snd e)"
      using Cons.prems by (rule dict_set_all)
    from Cons.IH [OF this] True p show ?thesis by (simp add: Let_def)
  next
    case False
    with Cons.IH [OF Cons.prems] p show ?thesis by (simp add: Let_def)
  qed
qed

lemma crow_muaps_of_ok:
  assumes "crow_muaps_of emg_array ht tt thismups = Inr d"
  shows "\<forall>e \<in> set d. nd_ok tt (snd e)"
proof (cases "length thismups > 0")
  case True
  with assms have "d = crow_muaps_loop emg_array ht tt (enumerate 0 thismups) []"
    by (simp add: crow_muaps_of_def)
  then show ?thesis
    using crow_muaps_loop_ok [of "[]" tt emg_array ht "enumerate 0 thismups"] by simp
next
  case False
  with assms obtain a v where "np_full tt v = Inr a" "d = [(Chan 0, Arr a)]"
    by (auto simp: crow_muaps_of_def ebind_Inr_iff split: if_splits)
  then show ?thesis using np_full_len [of tt v a] by (simp add: nd_ok_def)
qed

lemma st_rows_ok:
  "st_rows rs ht tt thismups acc = Inr d \<Longrightarrow>
   \<forall>e \<in> set acc. rows_have_len tt (snd e) \<Longrightarrow> \<forall>e \<in> set d. rows_have_len tt (snd e)"
proof (induction rs arbitrary: acc)
  case Nil
  then show ?case by simp
next
  case (Cons r rs)
  obtain row emg_array where r: "r = (row, emg_array)" by (cases r)
  from Cons.prems(1) r obtain crow_muaps df where
    cm: "crow_muaps_of emg_array ht tt thismups = Inr crow_muaps" and
    df: "pd_DataFrame crow_muaps = Inr df" and
    rest: "st_rows rs ht tt thismups (dict_set row df acc) = Inr d"
    by (auto simp: ebind_Inr_iff)
  have "rows_have_len tt df"
    using pd_DataFrame_rows [OF df] crow_muaps_of_ok [OF cm] by blast
  then have "\<forall>e \<in> set (dict_set row df acc). rows_have_len tt (snd e)"
    using Cons.prems(2) by (rule dict_set_all)
  with Cons.IH [OF rest] show ?case by blast
qed

lemma st_cols_ok:
  "st_cols cs ht tt thismups acc = Inr g \<Longrightarrow>
   \<forall>e \<in> set acc. trials_have_len tt (snd e) \<Longrightarrow> \<forall>e \<in> set g. trials_have_len tt (snd e)"
proof (induction cs arbitrary: acc)
  case Nil
  then show ?case by simp
next
  case (Cons c cs)
  obtain col df where c: "c = (col, df)" by (cases c)
  from Cons.prems(1) c obtain crows where
    cr: "st_rows (cols df) ht tt thismups [] = Inr crows" and
    rest: "st_cols cs ht tt thismups (dict_set col crows acc) = Inr g"
    by (auto simp: ebind_Inr_iff)
  have "trials_have_len tt crows"
    using st_rows_ok [OF cr] by (simp add: trials_have_len_def list_all_iff)
  then have "\<forall>e \<in> set (dict_set col crows acc). trials_have_len tt (snd e)"
    using Cons.prems(2) by (rule dict_set_all)
  with Cons.IH [OF rest] show ?case by blast
qed

lemma st_muap_row_length:
  assumes "st_muap emg sorted_rawemg timewindow = Inr stmuap"
  shows "\<forall>mu_st \<in> set stmuap. \<forall>e \<in> set mu_st.
           trials_have_len (tottime timewindow (FSAMP emg)) (snd e)"
proof (intro ballI)
  fix mu_st e assume m: "mu_st \<in> set stmuap" and e: "e \<in> set mu_st"
  let ?ht = "halftime timewindow (FSAMP emg)" and ?tt = "tottime timewindow (FSAMP emg)"
  from assms have "emap (st_muap_mu emg sorted_rawemg ?ht ?tt) [0..<NUMBER_OF_MUS emg] = Inr stmuap"
    by (simp add: st_muap_def Let_def)
  from emap_Inr_all [OF this] m obtain mu where
    "st_muap_mu emg sorted_rawemg ?ht ?tt mu = Inr mu_st" by blast
  then obtain thismups where "st_cols sorted_rawemg ?ht ?tt thismups [] = Inr mu_st"
    by (auto simp: st_muap_mu_def ebind_Inr_iff)
  from st_cols_ok [OF this] e show "trials_have_len ?tt (snd e)" by simp
qed

subsection \<open>Window conversion\<close>




subsection \<open>Windows that all fall off the recording\<close>

text \<open>
  Claim C2.  The claim asks for a template row of length \<open>tottime\<close> however many windows
  survive.  With a firing at sample 2 of a 10-sample channel and a 10-sample window, the
  only window is incomplete and is discarded; the mean of the empty list is the scalar NaN
  and building the frame fails, so no template of any length is returned.  The branch for
  an empty firing train fills the row with \<open>tottime\<close> zeros instead.
\<close>

theorem sta_all_slices_discarded:
  "sta \<lparr>FSAMP = 1000, IED = 8, NUMBER_OF_MUS = 1, MUPULSES = [[2]]\<rparr>
       [(''col0'', \<lparr>index = map int [0..<10], cols = [(Chan 0, replicate 10 (Some 1))]\<rparr>)]
       All 10
   = Inl (ValueError ''If using all scalar values, you must pass an index'')"
  by code_simp

subsection \<open>Packing after unpacking\<close>

lemma filter_eq_upt: "filter (\<lambda>q. p = q) [0..<n] = (if p < n then [p] else [])"
  by (induction n) auto

lemma merge_pairs_same:
  assumes "distinct idx"
  shows "merge_pairs idx idx = map (\<lambda>p. (p, p)) [0..<length idx]"
proof -
  have "map (\<lambda>q. (p, q)) (filter (\<lambda>q. idx ! p = idx ! q) [0..<length idx]) = [(p, p)]"
    if "p < length idx" for p
  proof -
    have "filter (\<lambda>q. idx ! p = idx ! q) [0..<length idx] = filter (\<lambda>q. p = q) [0..<length idx]"
      using assms that by (intro filter_cong) (auto simp: nth_eq_iff_index_eq)
    with that show ?thesis by (simp add: filter_eq_upt)
  qed
  then have eq: "map (\<lambda>p. map (\<lambda>q. (p, q)) (filter (\<lambda>q. idx ! p = idx ! q) [0..<length idx]))
      [0..<length idx] = map (\<lambda>p. [(p, p)]) [0..<length idx]"
    by (intro map_cong) simp_all
  have c: "concat (map (\<lambda>p. [(p, p)]) xs) = map (\<lambda>p. (p, p)) xs" for xs :: "nat list"
    by (induction xs) simp_all
  have "merge_pairs idx idx = concat (map (\<lambda>p. [(p, p)]) [0..<length idx])"
    unfolding merge_pairs_def by (rule arg_cong [where f = concat]) (rule eq)
  then show ?thesis by (simp only: c)
qed

lemma map_nth_diag:
  "length v = n \<Longrightarrow> map (\<lambda>(p, q). v ! p) (map (\<lambda>p. (p, p)) [0..<n]) = v"
  "length v = n \<Longrightarrow> map (\<lambda>(p, q). v ! q) (map (\<lambda>p. (p, p)) [0..<n]) = v"
  using map_nth [of v] by (simp_all add: comp_def)

lemma pd_merge_same_index:
  assumes "index l = idx" "index r = idx" "distinct idx" "wf_df l" "wf_df r"
    and "set (map fst (cols l)) \<inter> set (map fst (cols r)) = {}"
  shows "pd_merge l r = \<lparr>index = idx, cols = cols l @ cols r\<rparr>"
proof -
  let ?pairs = "map (\<lambda>p. (p, p)) [0..<length idx]"
  have mp: "merge_pairs (index l) (index r) = ?pairs"
    using assms(1-3) by (simp add: merge_pairs_same)
  have i: "map (\<lambda>(p, q). idx ! p) ?pairs = idx"
    by (rule map_nth_diag) simp
  have lc: "map (\<lambda>(k, v). (if k \<in> set (map fst (cols r)) then Suffix_x k else k,
                map (\<lambda>(p, q). v ! p) ?pairs)) (cols l) = cols l"
  proof (rule map_idI)
    fix c assume c: "c \<in> set (cols l)"
    obtain k v where kv: "c = (k, v)" by (cases c)
    from c kv assms(6) have "k \<notin> set (map fst (cols r))" by force
    moreover from c kv assms(4,1) have "length v = length idx"
      by (auto simp: wf_df_def list_all_iff)
    ultimately show "(case c of (k, v) \<Rightarrow> (if k \<in> set (map fst (cols r)) then Suffix_x k else k,
                map (\<lambda>(p, q). v ! p) ?pairs)) = c"
      using kv map_nth_diag [of v "length idx"] by simp
  qed
  have rc: "map (\<lambda>(k, v). (if k \<in> set (map fst (cols l)) then Suffix_y k else k,
                map (\<lambda>(p, q). v ! q) ?pairs)) (cols r) = cols r"
  proof (rule map_idI)
    fix c assume c: "c \<in> set (cols r)"
    obtain k v where kv: "c = (k, v)" by (cases c)
    from c kv assms(6) have "k \<notin> set (map fst (cols l))" by force
    moreover from c kv assms(5,2) have "length v = length idx"
      by (auto simp: wf_df_def list_all_iff)
    ultimately show "(case c of (k, v) \<Rightarrow> (if k \<in> set (map fst (cols l)) then Suffix_y k else k,
                map (\<lambda>(p, q). v ! q) ?pairs)) = c"
      using kv map_nth_diag [of v "length idx"] by simp
  qed
  show ?thesis
    unfolding pd_merge_def Let_def mp using i lc rc assms(1) by simp
qed


lemma foldl_pd_merge:
  assumes "index acc = idx" "wf_df acc" "distinct idx"
    and "\<forall>d \<in> set dfs. index d = idx \<and> wf_df d"
    and "distinct (map fst (cols acc) @ concat (map (\<lambda>d. map fst (cols d)) dfs))"
  shows "foldl pd_merge acc dfs = \<lparr>index = idx, cols = cols acc @ concat (map cols dfs)\<rparr>"
  using assms
proof (induction dfs arbitrary: acc)
  case Nil
  then show ?case by simp
next
  case (Cons d dfs)
  let ?acc = "\<lparr>index = idx, cols = cols acc @ cols d\<rparr>"
  from Cons.prems have disj: "set (map fst (cols acc)) \<inter> set (map fst (cols d)) = {}"
    by auto
  from Cons.prems have d: "index d = idx" "wf_df d" by simp_all
  have m: "pd_merge acc d = ?acc"
    using Cons.prems(1) d(1) Cons.prems(3) Cons.prems(2) d(2) disj
    by (rule pd_merge_same_index)
  have wf: "wf_df ?acc"
    using Cons.prems(1,2) d by (simp add: wf_df_def)
  have dist: "distinct (map fst (cols ?acc) @ concat (map (\<lambda>d. map fst (cols d)) dfs))"
    using Cons.prems(5) by simp
  have "foldl pd_merge ?acc dfs = \<lparr>index = idx, cols = cols ?acc @ concat (map cols dfs)\<rparr>"
    using Cons.prems(3,4) by (intro Cons.IH [OF _ wf _ _ dist]) simp_all
  with m show ?case by simp
qed

lemma unpack_sta_same_index:
  assumes "sta_mu \<noteq> []" "distinct idx"
    and "\<forall>e \<in> set sta_mu. index (snd e) = idx \<and> wf_df (snd e)"
    and "distinct (concat (map (\<lambda>e. map fst (cols (snd e))) sta_mu))"
  shows "unpack_sta sta_mu =
     Inr (\<lparr>index = idx, cols = concat (map (\<lambda>e. cols (snd e)) sta_mu)\<rparr>, map fst sta_mu)"
proof -
  from assms(1) obtain e rest where sm: "sta_mu = e # rest" by (cases sta_mu) auto
  have "foldl pd_merge (snd e) (map snd rest) =
      \<lparr>index = idx, cols = cols (snd e) @ concat (map cols (map snd rest))\<rparr>"
    using assms(2-4) sm by (intro foldl_pd_merge) (auto simp: comp_def)
  then show ?thesis
    by (simp add: unpack_sta_def reduce_def ebind_def sm comp_def)
qed

lemma dict_set_fresh: "k \<notin> fst ` set d \<Longrightarrow> dict_set k v d = d @ [(k, v)]"
  by (induction d) auto

lemma foldl_dict_set_enumerate:
  assumes "distinct (map fst acc @ ks)"
  shows "foldl (\<lambda>d (p, k). dict_set k (f p) d) acc (enumerate i ks) =
         acc @ map (\<lambda>(p, k). (k, f p)) (enumerate i ks)"
  using assms
proof (induction ks arbitrary: acc i)
  case Nil
  then show ?case by simp
next
  case (Cons k ks)
  from Cons.prems have "k \<notin> fst ` set acc" by auto
  then have ds: "dict_set k (f i) acc = acc @ [(k, f i)]" by (rule dict_set_fresh)
  have "distinct (map fst (acc @ [(k, f i)]) @ ks)" using Cons.prems by auto
  from Cons.IH [OF this] ds show ?case by simp
qed

lemma py_bound_nat: "py_bound n (int i) = min n i"
  by (simp add: py_bound_def)

lemma take_drop_concat:
  "\<forall>xs \<in> set xss. length xs = m \<Longrightarrow> p < length xss \<Longrightarrow>
   take m (drop (m * p) (concat xss)) = xss ! p"
proof (induction xss arbitrary: p)
  case Nil
  then show ?case by simp
next
  case (Cons xs xss)
  show ?case
  proof (cases p)
    case 0
    with Cons.prems show ?thesis by simp
  next
    case (Suc q)
    with Cons.prems have "take m (drop (m * q) (concat xss)) = xss ! q"
      by (intro Cons.IH) simp_all
    with Suc Cons.prems show ?thesis by simp
  qed
qed

lemma length_concat_const:
  "\<forall>xs \<in> set xss. length xs = m \<Longrightarrow> length (concat xss) = m * length xss"
  by (induction xss) simp_all

lemma py_slice_concat:
  assumes "\<forall>xs \<in> set xss. length xs = m" "p < length xss"
  shows "py_slice (concat xss) (int m * int p) (int m * (int p + 1)) = xss ! p"
proof -
  have l: "length (concat xss) = m * length xss"
    using assms(1) by (rule length_concat_const)
  have a: "int m * int p = int (m * p)" and b: "int m * (int p + 1) = int (m * Suc p)"
    by (simp_all add: algebra_simps)
  have le: "m * p \<le> m * length xss" "m * Suc p \<le> m * length xss"
    using assms(2) by (simp_all only: mult_le_mono2 Suc_leI less_imp_le_nat)
  have mn: "min (m * length xss) (m * p) = m * p" "min (m * length xss) (m * Suc p) = m * Suc p"
    using le by (simp_all only: min_absorb2)
  have d: "m * Suc p - m * p = m" by simp
  have "py_slice (concat xss) (int (m * p)) (int (m * Suc p))
      = take m (drop (m * p) (concat xss))"
    unfolding py_slice_def Let_def py_bound_nat l mn d ..
  then show ?thesis
    using take_drop_concat [OF assms] by (simp only: a b)
qed

lemma pack_slice_exact: "0 < n \<Longrightarrow> pack_slice (m * n) n = Inr (int m)"
  by (simp add: pack_slice_def)


lemma pack_sta_concat:
  assumes "sta_mu \<noteq> []" "distinct (map fst sta_mu)"
    and "\<forall>e \<in> set sta_mu. index (snd e) = idx \<and> length (cols (snd e)) = m"
  shows "pack_sta \<lparr>index = idx, cols = concat (map (\<lambda>e. cols (snd e)) sta_mu)\<rparr>
           (map fst sta_mu) = Inr sta_mu"
proof -
  let ?xss = "map (\<lambda>e. cols (snd e)) sta_mu"
  let ?df = "\<lparr>index = idx, cols = concat ?xss\<rparr>"
  let ?keys = "map fst sta_mu"
  let ?f = "\<lambda>p. iloc_cols (int m * int p) (int m * (int p + 1)) ?df"
  have xs: "\<forall>xs \<in> set ?xss. length xs = m" using assms(3) by auto
  have n: "0 < length sta_mu" using assms(1) by simp
  have "length (cols ?df) = m * length sta_mu"
    using length_concat_const [OF xs] by simp
  then have sl: "pack_slice (length (cols ?df)) (length ?keys) = Inr (int m)"
    using pack_slice_exact [OF n, of m] by simp
  have "distinct (map fst [] @ ?keys)" using assms(2) by simp
  from foldl_dict_set_enumerate [OF this, of ?f 0]
  have fo: "foldl (\<lambda>d (p, k). dict_set k (?f p) d) [] (enumerate 0 ?keys) =
      map (\<lambda>(p, k). (k, ?f p)) (enumerate 0 ?keys)"
    by simp
  have "map (\<lambda>(p, k). (k, ?f p)) (enumerate 0 ?keys) = sta_mu"
  proof (rule nth_equalityI)
    show "length (map (\<lambda>(p, k). (k, ?f p)) (enumerate 0 ?keys)) = length sta_mu" by simp
  next
    fix i assume "i < length (map (\<lambda>(p, k). (k, ?f p)) (enumerate 0 ?keys))"
    then have i: "i < length sta_mu" by simp
    then have e: "sta_mu ! i \<in> set sta_mu" by simp
    have "py_slice (concat ?xss) (int m * int i) (int m * (int i + 1)) = ?xss ! i"
      using xs i by (intro py_slice_concat) simp_all
    then have "?f i = \<lparr>index = idx, cols = cols (snd (sta_mu ! i))\<rparr>"
      using i by (simp add: iloc_cols_def)
    also have "\<dots> = snd (sta_mu ! i)"
      using assms(3) e by simp
    finally have "?f i = snd (sta_mu ! i)" .
    with i show "map (\<lambda>(p, k). (k, ?f p)) (enumerate 0 ?keys) ! i = sta_mu ! i"
      by (simp add: nth_enumerate_eq prod_eq_iff)
  qed
  with fo sl show ?thesis by (simp add: pack_sta_def ebind_def)
qed



subsection \<open>The lag used for the alignment\<close>

lemma clamp_lag_upper: "clamp_lag fds lag \<le> of_int fds / 2"
  by (simp add: clamp_lag_def)

lemma align_lag_upper_bound:
  assumes "align_lag xcorr_same sta_mu1 sta_mu2 finalduration = Inr a"
  shows "al_lag a \<le> of_int (al_fds a) / 2"
proof -
  from assms obtain fds lag where "al_lag a = clamp_lag fds lag" "al_fds a = fds"
    by (auto simp: align_lag_def ebind_Inr_iff Let_def split: prod.splits option.splits)
  then show ?thesis using clamp_lag_upper [of fds lag] by simp
qed

text \<open>
  Claim C1.  The claim bounds the absolute value of the lag by half of
  \<open>finalduration_samples\<close>.  The guard of the code replaces a lag above the bound only.
  For two 4-sample templates and \<open>finalduration = 0.5\<close> the bound is 1; when the
  cross-correlation peaks at the first lag, \<open>-2\<close>, the lag used for the shift is still
  \<open>-2\<close>.
\<close>

theorem align_lag_negative_not_clamped:
  "align_lag
     (\<lambda>no_nan_sta1 no_nan_sta2.
        Inr \<lparr>index = [0, 1, 2, 3], cols = [(Chan 0, [Some 1, Some 0, Some 0, Some 0])]\<rparr>)
     [(''col0'', \<lparr>index = [0, 1, 2, 3], cols = [(Chan 0, [Some 1, Some 0, Some 0, Some 0])]\<rparr>)]
     [(''col0'', \<lparr>index = [0, 1, 2, 3], cols = [(Chan 0, [Some 0, Some 0, Some 1, Some 0])]\<rparr>)]
     (1 / 2)
   = Inr \<lparr>al_df1 = \<lparr>index = [0, 1, 2, 3], cols = [(Chan 0, [Some 1, Some 0, Some 0, Some 0])]\<rparr>,
          al_df2 = \<lparr>index = [0, 1, 2, 3], cols = [(Chan 0, [Some 0, Some 0, Some 1, Some 0])]\<rparr>,
          al_keys = [''col0''], al_lags = [- 2, - 1, 0, 1], al_fds = 2, al_lag = - 2\<rparr>
   \<and> \<not> \<bar>- 2 :: rat\<bar> \<le> of_int 2 / 2"
  by code_simp

subsection \<open>Length of the aligned templates\<close>

text \<open>
  Claim C3.  The claim gives both outputs the length \<open>round(original_length *
  finalduration)\<close>.  For two 4-sample templates, \<open>finalduration = 0.5\<close> and a lag of 1
  (inside the bound), three rows are left after the shift; \<open>tocutstart = round(0.5) = 0\<close>
  and \<open>tocutend = 3\<close>, so both outputs keep 3 samples instead of 2.
\<close>

theorem align_by_xcorr_length_off_by_one:
  "align_by_xcorr
     (\<lambda>no_nan_sta1 no_nan_sta2.
        Inr \<lparr>index = [0, 1, 2, 3], cols = [(Chan 0, [Some 0, Some 0, Some 0, Some 1])]\<rparr>)
     [(''col0'', \<lparr>index = [0, 1, 2, 3], cols = [(Chan 0, [Some 0, Some 1, Some 0, Some 0])]\<rparr>)]
     [(''col0'', \<lparr>index = [0, 1, 2, 3], cols = [(Chan 0, [Some 1, Some 0, Some 0, Some 0])]\<rparr>)]
     (1 / 2)
   = Inr ([(''col0'', \<lparr>index = [0, 1, 2], cols = [(Chan 0, [Some 1, Some 0, Some 0])]\<rparr>)],
          [(''col0'', \<lparr>index = [0, 1, 2], cols = [(Chan 0, [Some 1, Some 0, Some 0])]\<rparr>)])
   \<and> py_round (of_nat (length [0, 1, 2, 3 :: int]) * (1 / 2)) = 2"
  by code_simp

lemma to_rows_append:
  "res_ok r \<Longrightarrow> to_rows (res_append m j x r) = to_rows r @ [(m, j, x)]"
  by (simp add: to_rows_def res_append_def res_ok_def)

lemma res_ok_append: "res_ok r \<Longrightarrow> res_ok (res_append m j x r)"
  by (simp add: res_append_def res_ok_def)

lemma parallel_loop_rows:
  "parallel_loop cmp ebt th m js r = Inr r' \<Longrightarrow> res_ok r \<Longrightarrow>
   res_ok r' \<and>
   set (to_rows r') = set (to_rows r) \<union>
     {(m, j, x) | j x. j \<in> set js \<and> cmp m j = Inr x \<and> (ebt = False \<or> x \<ge> th)}"
proof (induction js arbitrary: r)
  case Nil
  then show ?case by simp
next
  case (Cons j js)
  from Cons.prems(1) obtain x where x: "cmp m j = Inr x" and
    rest: "(if ebt = False then parallel_loop cmp ebt th m js (res_append m j x r)
            else if ebt \<and> x \<ge> th then parallel_loop cmp ebt th m js (res_append m j x r)
            else parallel_loop cmp ebt th m js r) = Inr r'"
    by (auto simp: ebind_Inr_iff)
  show ?case
  proof (cases "ebt = False \<or> x \<ge> th")
    case True
    with rest have "parallel_loop cmp ebt th m js (res_append m j x r) = Inr r'"
      by (auto split: if_splits)
    from Cons.IH [OF this res_ok_append [OF Cons.prems(2)]]
    show ?thesis using x True to_rows_append [OF Cons.prems(2), of m j x] by auto
  next
    case False
    with rest have "parallel_loop cmp ebt th m js r = Inr r'"
      by (auto split: if_splits)
    from Cons.IH [OF this Cons.prems(2)]
    show ?thesis using x False by auto
  qed
qed

lemma parallel_loop_total:
  "\<forall>j \<in> set js. \<exists>x. cmp m j = Inr x \<Longrightarrow> \<exists>r'. parallel_loop cmp ebt th m js r = Inr r'"
proof (induction js arbitrary: r)
  case Nil
  then show ?case by simp
next
  case (Cons j js)
  then obtain x where x: "cmp m j = Inr x" by auto
  from Cons have "\<exists>r'. parallel_loop cmp ebt th m js r0 = Inr r'" for r0 by simp
  with x show ?case by (cases ebt) (auto simp: ebind_def)
qed

subsection \<open>The threshold phase\<close>

text \<open>
  Claim C4.  When every comparison of \<open>mu_file1\<close> with the MUs of the second file returns
  a score, the task returns, and its table holds the row \<open>(i, j, x)\<close> exactly when
  \<open>i = mu_file1\<close>, \<open>j\<close> is an MU of the second file, \<open>x\<close> is the score of the pair and
  \<open>exclude_belowthreshold\<close> is false or \<open>x \<ge> threshold\<close>.  The comparison is inclusive: a
  score equal to the threshold is retained.
\<close>

theorem threshold_phase:
  assumes "\<forall>j < n2. \<exists>x. cmp mu_file1 j = Inr x"
  shows "\<exists>r. parallel cmp exclude_belowthreshold threshold n2 mu_file1 = Inr r \<and>
          (\<forall>i j x. (i, j, x) \<in> set (to_rows r) \<longleftrightarrow>
             i = mu_file1 \<and> j < n2 \<and> cmp mu_file1 j = Inr x \<and>
             (exclude_belowthreshold = False \<or> x \<ge> threshold))"
proof -
  let ?r0 = "\<lparr>MU_file1 = [], MU_file2 = [], XCC = []\<rparr>"
  from assms have "\<forall>j \<in> set [0..<n2]. \<exists>x. cmp mu_file1 j = Inr x" by simp
  with parallel_loop_total [where js = "[0..<n2]" and cmp = cmp and m = mu_file1
      and ebt = exclude_belowthreshold and th = threshold and r = ?r0]
  obtain r where
    r: "parallel_loop cmp exclude_belowthreshold threshold mu_file1 [0..<n2] ?r0 = Inr r"
    by blast
  have "res_ok ?r0" by (simp add: res_ok_def)
  from parallel_loop_rows [OF r this]
  have "set (to_rows r) = {(mu_file1, j, x) | j x. j \<in> set [0..<n2] \<and> cmp mu_file1 j = Inr x \<and>
          (exclude_belowthreshold = False \<or> x \<ge> threshold)}"
    by (simp add: to_rows_def)
  then have "\<forall>i j x. (i, j, x) \<in> set (to_rows r) \<longleftrightarrow>
             i = mu_file1 \<and> j < n2 \<and> cmp mu_file1 j = Inr x \<and>
             (exclude_belowthreshold = False \<or> x \<ge> threshold)"
    by auto
  with r show ?thesis by (auto simp: parallel_def)
qed

text \<open>With threshold 0.8 the pair scoring exactly 0.8 is kept, the pair scoring 0.5 is not.\<close>

theorem threshold_phase_witness:
  "\<exists>r. parallel (\<lambda>i j. Inr (if j = 0 then 4 / 5 else 1 / 2)) True (4 / 5) 2 0 = Inr r \<and>
     (0, 0, 4 / 5) \<in> set (to_rows r) \<and> (0, 1, 1 / 2) \<notin> set (to_rows r)"
proof -
  let ?cmp = "\<lambda>i j :: nat. (Inr (if j = 0 then 4 / 5 else 1 / 2) :: py_error + rat)"
  have "\<forall>j < (2::nat). \<exists>x. ?cmp (0::nat) j = Inr x" by simp
  with threshold_phase [where cmp = ?cmp and ?n2.0 = 2 and ?mu_file1.0 = 0
      and exclude_belowthreshold = True and threshold = "4 / 5"]
  obtain r where
    r: "parallel ?cmp True (4 / 5) 2 0 = Inr r" and
    m: "\<And>i j x. (i, j, x) \<in> set (to_rows r) \<longleftrightarrow>
          i = 0 \<and> j < 2 \<and> ?cmp 0 j = Inr x \<and> (True = False \<or> x \<ge> 4 / 5)"
    by blast
  have "(0, 0, 4 / 5) \<in> set (to_rows r)" using m [of 0 0 "4 / 5"] by simp
  moreover have "(0, 1, 1 / 2) \<notin> set (to_rows r)" using m [of 0 1 "1 / 2"] by simp
  ultimately show ?thesis using r by blast
qed

subsection \<open>Parallel and serial execution\<close>

lemma serial_loop_emap:
  "serial_loop task mus rs = ebind (emap task mus) (\<lambda>ys. Inr (rs @ ys))"
proof (induction mus arbitrary: rs)
  case Nil
  then show ?case by (simp add: ebind_def)
next
  case (Cons mu mus)
  show ?case
  proof (cases "task mu")
    case (Inl e)
    then show ?thesis by (simp add: ebind_def)
  next
    case (Inr r)
    then show ?thesis
      by (cases "emap task mus") (simp_all add: Cons.IH ebind_def)
  qed
qed

lemma serial_is_parallel: "serial_loop task mus [] = joblib_Parallel task mus"
  by (cases "emap task mus") (simp_all add: serial_loop_emap joblib_Parallel_def ebind_def)


subsection \<open>The filter phase\<close>

lemma set_unique: "set (unique xs) = set xs"
proof (induction xs rule: unique.induct)
  case 1
  then show ?case by simp
next
  case (2 x xs)
  then show ?case by auto
qed

lemma distinct_unique: "distinct (unique xs)"
proof (induction xs rule: unique.induct)
  case 1
  then show ?case by simp
next
  case (2 x xs)
  then show ?case by (simp add: set_unique)
qed

lemma emap_map: "\<forall>x \<in> set xs. f x = Inr (g x) \<Longrightarrow> emap f xs = Inr (map g xs)"
  by (induction xs) (simp_all add: ebind_def)

lemma first_rows_eq:
  "first_rows col t = Inr (map (first_of col t) (unique (map col t)))"
proof -
  have "iloc0 (filter (\<lambda>r. col r = mu) t) = Inr (first_of col t mu)"
    if "mu \<in> set (unique (map col t))" for mu
  proof -
    from that have "mu \<in> col ` set t" by (simp add: set_unique)
    then have "filter (\<lambda>r. col r = mu) t \<noteq> []" by (auto simp: filter_empty_conv)
    then show ?thesis by (cases "filter (\<lambda>r. col r = mu) t") (simp_all add: iloc0_def first_of_def)
  qed
  then show ?thesis unfolding first_rows_def by (intro emap_map) simp
qed

lemma first_of_props:
  assumes "mu \<in> col ` set t"
  shows "first_of col t mu \<in> set t" and "col (first_of col t mu) = mu"
proof -
  from assms have ne: "filter (\<lambda>r. col r = mu) t \<noteq> []" by (auto simp: filter_empty_conv)
  then have "first_of col t mu \<in> set (filter (\<lambda>r. col r = mu) t)"
    unfolding first_of_def by (rule hd_in_set)
  then show "first_of col t mu \<in> set t" and "col (first_of col t mu) = mu" by simp_all
qed

lemma first_rows_cols:
  "map col (map (first_of col t) (unique (map col t))) = unique (map col t)"
proof -
  have "col (first_of col t mu) = mu" if "mu \<in> set (unique (map col t))" for mu
    using that by (intro first_of_props) (simp add: set_unique)
  then show ?thesis by (simp add: map_idI)
qed

lemma first_rows_subset:
  "set (map (first_of col t) (unique (map col t))) \<subseteq> set t"
  using first_of_props(1) [of _ col t] by (auto simp: set_unique)

lemma hd_filter_sorted:
  "sorted (map f xs) \<Longrightarrow> x \<in> set xs \<Longrightarrow> P x \<Longrightarrow> f (hd (filter P xs)) \<le> f x"
  by (induction xs) auto

lemma first_of_max:
  assumes "sorted (map (\<lambda>r. (- int (col r), - xcc r)) t)" and "r' \<in> set t"
  shows "xcc r' \<le> xcc (first_of col t (col r'))"
proof -
  have "(- int (col (first_of col t (col r'))), - xcc (first_of col t (col r')))
        \<le> (- int (col r'), - xcc r')"
    unfolding first_of_def
    using hd_filter_sorted [OF assms(1) assms(2), of "\<lambda>r. col r = col r'"] by simp
  moreover have "col (first_of col t (col r')) = col r'"
    using assms(2) by (intro first_of_props) simp
  ultimately show ?thesis by (simp add: less_eq_prod_def)
qed

lemma filter_results_props:
  "\<exists>best1 res.
     first_rows mu1 (sort_key key_mu1_xcc_desc cand) = Inr best1 \<and>
     filter_results cand = Inr res \<and>
     distinct (map mu1 res) \<and> distinct (map mu2 res) \<and> sorted (map mu1 res) \<and>
     set res \<subseteq> set best1 \<and> set best1 \<subseteq> set cand \<and>
     (\<forall>r \<in> set best1. \<forall>r' \<in> set cand. mu1 r' = mu1 r \<longrightarrow> xcc r' \<le> xcc r) \<and>
     (\<forall>r \<in> set res. \<forall>r' \<in> set best1. mu2 r' = mu2 r \<longrightarrow> xcc r' \<le> xcc r)"
proof -
  let ?t1 = "sort_key key_mu1_xcc_desc cand"
  let ?b1 = "map (first_of mu1 ?t1) (unique (map mu1 ?t1))"
  let ?t2 = "sort_key key_mu2_xcc_desc ?b1"
  let ?b2 = "map (first_of mu2 ?t2) (unique (map mu2 ?t2))"
  let ?res = "sort_key mu1 ?b2"
  have f1: "first_rows mu1 ?t1 = Inr ?b1" by (rule first_rows_eq)
  have f2: "first_rows mu2 ?t2 = Inr ?b2" by (rule first_rows_eq)
  have fr: "filter_results cand = Inr ?res"
    by (simp add: filter_results_def f1 f2 ebind_def)
  have s1: "sorted (map (\<lambda>r. (- int (mu1 r), - xcc r)) ?t1)"
    using sorted_sort_key [of key_mu1_xcc_desc cand] by (simp add: key_mu1_xcc_desc_def [abs_def])
  have s2: "sorted (map (\<lambda>r. (- int (mu2 r), - xcc r)) ?t2)"
    using sorted_sort_key [of key_mu2_xcc_desc ?b1] by (simp add: key_mu2_xcc_desc_def [abs_def])
  have d1: "distinct (map mu1 ?b1)"
    by (simp only: first_rows_cols distinct_unique)
  have d2: "distinct (map mu2 ?b2)"
    by (simp only: first_rows_cols distinct_unique)
  have sub1: "set ?b1 \<subseteq> set cand"
    using first_rows_subset [of mu1 ?t1] by simp
  have sub2: "set ?b2 \<subseteq> set ?b1"
    using first_rows_subset [of mu2 ?t2] by simp
  have "distinct ?b2" using d2 by (simp only: distinct_map)
  moreover have "inj_on mu1 (set ?b1)" using d1 by (simp only: distinct_map)
  then have "inj_on mu1 (set ?b2)" using sub2 by (rule inj_on_subset)
  ultimately have d3: "distinct (map mu1 ?b2)" by (simp only: distinct_map simp_thms)
  have r1: "distinct (map mu1 ?res)"
    using d3 by (simp only: distinct_map distinct_sort set_sort)
  have r2: "distinct (map mu2 ?res)"
    using d2 by (simp only: distinct_map distinct_sort set_sort)
  have r3: "sorted (map mu1 ?res)" by (rule sorted_sort_key)
  have m1: "xcc r' \<le> xcc r" if "r \<in> set ?b1" "r' \<in> set cand" "mu1 r' = mu1 r" for r r'
  proof -
    from that(1) obtain mu where mu: "mu \<in> mu1 ` set ?t1" "r = first_of mu1 ?t1 mu"
      by (auto simp: set_unique)
    then have "mu1 r = mu" by (simp add: first_of_props)
    with that(3) mu(2) have "r = first_of mu1 ?t1 (mu1 r')" by simp
    moreover from that(2) have "r' \<in> set ?t1" by simp
    ultimately show ?thesis using first_of_max [OF s1, of r'] by simp
  qed
  have m2: "xcc r' \<le> xcc r" if "r \<in> set ?res" "r' \<in> set ?b1" "mu2 r' = mu2 r" for r r'
  proof -
    from that(1) have "r \<in> set ?b2" by (simp only: set_sort)
    then obtain mu where mu: "mu \<in> mu2 ` set ?t2" "r = first_of mu2 ?t2 mu"
      by (auto simp: set_unique)
    then have "mu2 r = mu" by (simp add: first_of_props)
    with that(3) mu(2) have "r = first_of mu2 ?t2 (mu2 r')" by simp
    moreover from that(2) have "r' \<in> set ?t2" by (simp only: set_sort)
    ultimately show ?thesis using first_of_max [OF s2, of r'] by simp
  qed
  have sub3: "set ?res \<subseteq> set ?b1" using sub2 by (simp only: set_sort)
  show ?thesis
    using f1 fr r1 r2 r3 sub3 sub1 m1 m2 by blast
qed

text \<open>
  Claim C5.  Whenever the candidate table is computed, \<open>tracking\<close> with \<open>filter=True\<close>
  returns a table in which no \<open>MU_file1\<close> value and no \<open>MU_file2\<close> value occurs twice and
  whose rows are sorted by \<open>MU_file1\<close> ascending.  Every row of the first pass has the
  largest XCC among the candidates of its \<open>MU_file1\<close>, and every returned row has the
  largest XCC among the rows of the first pass with its \<open>MU_file2\<close>.
\<close>

theorem matching_uniqueness:
  assumes "tracking_candidates sort_rawemg xcorr_same xcorr_full emgfile1 emgfile2 fr derivation
     timewindow threshold sorting custom_muaps exclude_belowthreshold multiprocessing = Inr cand"
  shows "\<exists>best1 res.
     tracking sort_rawemg xcorr_same xcorr_full emgfile1 emgfile2 fr derivation
       timewindow threshold sorting custom_muaps exclude_belowthreshold True multiprocessing
       = Inr res \<and>
     first_rows mu1 (sort_key key_mu1_xcc_desc cand) = Inr best1 \<and>
     distinct (map mu1 res) \<and> distinct (map mu2 res) \<and> sorted (map mu1 res) \<and>
     set res \<subseteq> set best1 \<and> set best1 \<subseteq> set cand \<and>
     (\<forall>r \<in> set best1. \<forall>r' \<in> set cand. mu1 r' = mu1 r \<longrightarrow> xcc r' \<le> xcc r) \<and>
     (\<forall>r \<in> set res. \<forall>r' \<in> set best1. mu2 r' = mu2 r \<longrightarrow> xcc r' \<le> xcc r)"
proof -
  have t: "tracking sort_rawemg xcorr_same xcorr_full emgfile1 emgfile2 fr derivation
       timewindow threshold sorting custom_muaps exclude_belowthreshold True multiprocessing
       = filter_results cand"
    using assms by (simp add: tracking_def ebind_def)
  show ?thesis unfolding t using filter_results_props [of cand] by blast
qed

text \<open>Three MUs against two: the third MU of file 1 loses its match to the second.\<close>

theorem matching_uniqueness_witness:
  "tracking_candidates no_sorting no_xcorr cell_score (example_emg 3) (example_emg 2)
       All ''sd'' 50 (4 / 5) ()
       (PyList [PyDict [one_cell 5, one_cell 1, one_cell 2], PyDict [one_cell 1, one_cell 3]])
       True True
     = Inr [(0, 1, 4 / 5), (1, 0, 1), (1, 1, 4 / 5), (2, 0, 9 / 10), (2, 1, 9 / 10)]
   \<and> tracking no_sorting no_xcorr cell_score (example_emg 3) (example_emg 2)
       All ''sd'' 50 (4 / 5) ()
       (PyList [PyDict [one_cell 5, one_cell 1, one_cell 2], PyDict [one_cell 1, one_cell 3]])
       True True True
     = Inr [(0, 1, 4 / 5), (1, 0, 1)]
   \<and> distinct (map mu1 [(0, 1, 4 / 5), (1, 0, 1 :: rat)])
   \<and> distinct (map mu2 [(0, 1, 4 / 5), (1, 0, 1 :: rat)])
   \<and> sorted (map mu1 [(0, 1, 4 / 5), (1, 0, 1 :: rat)])"
proof -
  let ?c = "PyList [PyDict [one_cell 5, one_cell 1, one_cell 2], PyDict [one_cell 1, one_cell 3]]"
  have a: "tracking_candidates no_sorting no_xcorr cell_score (example_emg 3) (example_emg 2)
       All ''sd'' 50 (4 / 5) () ?c True True
     = Inr [(0, 1, 4 / 5), (1, 0, 1), (1, 1, 4 / 5), (2, 0, 9 / 10), (2, 1, 9 / 10)]"
    by code_simp
  have b: "tracking no_sorting no_xcorr cell_score (example_emg 3) (example_emg 2)
       All ''sd'' 50 (4 / 5) () ?c True True True
     = Inr [(0, 1, 4 / 5), (1, 0, 1)]"
    by code_simp
  from matching_uniqueness [OF a] b show ?thesis using a by auto
qed

subsection \<open>Configuration errors of \<open>tracking\<close>\<close>

text \<open>
  Claim C7, as amended.  \<open>tracking\<close> raises a \<open>ValueError\<close> in its first phase, before
  any comparison of templates, when \<open>custom_muaps\<close> is not a list, both files are sorted
  and the derivation is not one of \<open>mono\<close>, \<open>sd\<close>, \<open>dd\<close>, and when \<open>custom_muaps\<close> is a
  list that does not consist of exactly two dicts.
\<close>

theorem configuration_errors:
  assumes "bad_configuration sort_rawemg emgfile1 emgfile2 sorting derivation custom_muaps"
  shows "\<exists>msg.
     obtain_stas sort_rawemg emgfile1 emgfile2 fr derivation timewindow sorting custom_muaps
       = Inl (ValueError msg) \<and>
     tracking sort_rawemg xcorr_same xcorr_full emgfile1 emgfile2 fr derivation
       timewindow threshold sorting custom_muaps exclude_belowthreshold filter_on
       multiprocessing = Inl (ValueError msg)"
proof -
  have "\<exists>msg. obtain_stas sort_rawemg emgfile1 emgfile2 fr derivation timewindow sorting
      custom_muaps = Inl (ValueError msg)"
  proof (cases custom_muaps)
    case NotAList
    with assms obtain g1 g2 where
      "sort_rawemg emgfile1 sorting = Inr g1" "sort_rawemg emgfile2 sorting = Inr g2"
      and d: "derivation \<noteq> ''mono''" "derivation \<noteq> ''sd''" "derivation \<noteq> ''dd''"
      by (cases "sort_rawemg emgfile1 sorting"; cases "sort_rawemg emgfile2 sorting")
         (auto simp: bad_configuration_def)
    with NotAList show ?thesis
      by (simp add: obtain_stas_def derive_def ebind_def)
  next
    case (PyList items)
    with assms have "length items \<noteq> 2 \<or> items ! 0 = NotADict \<or> items ! 1 = NotADict"
      by (simp add: bad_configuration_def)
    with PyList show ?thesis
      by (auto simp: obtain_stas_def split: custom_item.splits)
  qed
  then show ?thesis
    by (auto simp: tracking_def tracking_candidates_def ebind_def)
qed

text \<open>An unknown derivation without custom templates, and a list of one dict.\<close>

theorem configuration_errors_witness:
  "(\<exists>msg. tracking no_sorting no_xcorr cell_score (example_emg 1) (example_emg 1)
       All ''xx'' 50 (4 / 5) () NotAList True True True = Inl (ValueError msg))
   \<and> (\<exists>msg. tracking no_sorting no_xcorr cell_score (example_emg 1) (example_emg 1)
       All ''sd'' 50 (4 / 5) () (PyList [PyDict [one_cell 1]]) True True True
       = Inl (ValueError msg))"
proof -
  have "bad_configuration no_sorting (example_emg 1) (example_emg 1) () ''xx'' NotAList"
    by (simp add: bad_configuration_def no_sorting_def)
  moreover have "bad_configuration no_sorting (example_emg 1) (example_emg 1) () ''sd''
      (PyList [PyDict [one_cell 1]])"
    by (simp add: bad_configuration_def)
  ultimately show ?thesis
    using configuration_errors [of no_sorting "example_emg 1" "example_emg 1" "()" "''xx''"
        NotAList All 50 no_xcorr cell_score "4 / 5" True True True]
      configuration_errors [of no_sorting "example_emg 1" "example_emg 1" "()" "''sd''"
        "PyList [PyDict [one_cell 1]]" All 50 no_xcorr cell_score "4 / 5" True True True]
    by blast
qed

text \<open>
  With custom templates the derivation is not looked at: an unknown derivation together
  with a list of two dicts is accepted and the table is returned.
\<close>

theorem configuration_errors_counterexample:
  "tracking no_sorting no_xcorr cell_score (example_emg 1) (example_emg 1)
       All ''xx'' 50 (4 / 5) () (PyList [PyDict [one_cell 1], PyDict [one_cell 1]])
       True True True
     = Inr [(0, 0, 1)]"
  by code_simp

subsection \<open>Channel sets of \<open>estimate_cv_via_mle\<close>\<close>

text \<open>
  Claim C8, as amended.  With fewer than two channels \<open>estimate_cv_via_mle\<close> fails with
  the \<open>IndexError\<close> of the array indexing, whatever the two estimators would do: they are
  not reached.
\<close>

theorem too_few_channels:
  assumes "length (cols signal) < 2"
  shows "estimate_cv_via_mle find_mle_teta mle_cv_est emg signal = Inl IndexError"
proof -
  from assms have "length (cols signal) = 0 \<or> length (cols signal) = 1" by arith
  then show ?thesis
    by (auto simp: estimate_cv_via_mle_def np_row_def ebind_def Let_def)
qed

text \<open>One channel, with estimators that would raise an error of their own.\<close>

theorem too_few_channels_witness:
  "estimate_cv_via_mle
     (\<lambda>sig1 sig2 ied fsamp. Inl (ValueError ''MLE search entered''))
     (\<lambda>sig teta ied fsamp. Inl (ValueError ''MLE search entered''))
     (example_emg 1) \<lparr>index = [0, 1, 2], cols = [(Chan 0, [Some 1, Some 2, Some 3])]\<rparr>
   = Inl IndexError"
  using too_few_channels [of "\<lparr>index = [0, 1, 2], cols = [(Chan 0, [Some 1, Some 2, Some 3])]\<rparr>"
     "\<lambda>sig1 sig2 ied fsamp. Inl (ValueError ''MLE search entered'')"
     "\<lambda>sig teta ied fsamp. Inl (ValueError ''MLE search entered'')" "example_emg 1"]
  by simp

text \<open>
  The function validates nothing itself.  One channel fails with \<open>IndexError\<close>, not with a
  validation error; and a frame whose second channel is one sample short (its last cell
  is the NaN padding of pandas) goes through to the estimators, whose result is returned.
\<close>

theorem no_validation_counterexample:
  "estimate_cv_via_mle
     (\<lambda>sig1 sig2 ied fsamp. Inr 0) (\<lambda>sig teta ied fsamp. Inr (- 4, teta))
     (example_emg 1) \<lparr>index = [0, 1, 2], cols = [(Chan 0, [Some 1, Some 2, Some 3])]\<rparr>
   = Inl IndexError
   \<and> estimate_cv_via_mle
     (\<lambda>sig1 sig2 ied fsamp. Inr 0) (\<lambda>sig teta ied fsamp. Inr (- 4, teta))
     (example_emg 1)
     \<lparr>index = [0, 1, 2],
      cols = [(Chan 0, [Some 1, Some 2, Some 3]), (Chan 1, [Some 1, Some 2, None])]\<rparr>
   = Inr 4"
  by code_simp

end
